theory Spec2Isabelle
  imports Main "HOL-Library.Word" "HOL-Library.Sublist"
begin

section \<open>Data model\<close>

text \<open>
  The translator of container lifecycle notifications (package \<open>subscription\<close>) keeps
  three process-wide maps from container IDs to pointers to \<open>api.ContainerEvent\<close>
  structs: the two merge buffers \<open>containerCreated\<close> and \<open>containerStarted\<close>, and the
  metadata cache \<open>containerCache\<close>. The same pointer is stored in a buffer, in the
  cache and in the emitted envelope, and the struct behind it is updated in place, so
  the structs live in an explicit heap: an address is an index into the list of
  allocated structs, and allocation appends a cell.
\<close>

type_synonym int32 = "32 word"
type_synonym addr = nat
type_synonym error = string

datatype ContainerEventType =
    CONTAINER_EVENT_TYPE_UNKNOWN
  | CONTAINER_EVENT_TYPE_CREATED
  | CONTAINER_EVENT_TYPE_RUNNING
  | CONTAINER_EVENT_TYPE_EXITED
  | CONTAINER_EVENT_TYPE_DESTROYED

text \<open>\<open>api.ContainerEvent\<close>, with the fields this package reads and writes.\<close>

record ContainerEvent =
  Type :: ContainerEventType
  Name :: string
  ImageId :: string
  ImageName :: string
  HostPid :: int32
  DockerConfigJson :: string
  OciConfigJson :: string
  ExitCode :: int32

text \<open>
  The zero value of the struct, as a Go composite literal leaves every field it does
  not name. The zero value of the phase tag is taken to be
  \<open>CONTAINER_EVENT_TYPE_UNKNOWN\<close> (the first value of the enumeration).
\<close>

definition zeroContainerEvent :: ContainerEvent where
  "zeroContainerEvent =
     \<lparr>Type = CONTAINER_EVENT_TYPE_UNKNOWN, Name = [], ImageId = [], ImageName = [],
      HostPid = 0, DockerConfigJson = [], OciConfigJson = [], ExitCode = 0\<rparr>"

text \<open>
  \<open>container.State\<close>: the declaration is outside the sources. It is a Go enumeration,
  that is an integer type with four named constants, so a value of the type need not
  be one of them: \<open>ContainerStateOther\<close> stands for every other value.
\<close>

datatype State =
    ContainerCreated
  | ContainerStarted
  | ContainerStopped
  | ContainerRemoved
  | ContainerStateOther nat

text \<open>
  \<open>container.Event\<close>, the raw notification (\<open>ce\<close> in the source). The type of \<open>Pid\<close>
  is declared outside the sources; the translator converts it with \<open>int32(ce.Pid)\<close>,
  so it is some Go integer type, kept here as its mathematical value. \<open>ExitCode\<close> is
  assigned without conversion, so it has the type of the target field.
\<close>

record container_Event =
  ceID :: string
  ceName :: string
  ceImageID :: string
  ceImage :: string
  ceState :: State
  cePid :: int
  ceDockerConfig :: string
  ceOciConfig :: string
  ceExitCode :: int32

text \<open>Go's conversion of an integer to \<open>int32\<close> keeps the low 32 bits.\<close>

definition to_int32 :: "int \<Rightarrow> int32" where
  "to_int32 i = word_of_int i"

text \<open>
  The static metadata of a container as the runtime-introspection package returns it
  (\<open>dc.ID\<close>, \<open>dc.Name\<close>, \<open>dc.Image\<close> and \<open>dc.Config.Image\<close>).
\<close>

record DockerConfig =
  dcID :: string
  dcName :: string
  dcImage :: string
  dcConfigImage :: string

text \<open>
  The two functions of package \<open>container\<close> the cache calls. They are external, so
  they are a parameter of every operation; a different one may be passed at each
  operation. A Go result \<open>(v, err)\<close> is \<open>Inl err\<close> when \<open>err\<close> is not nil.
\<close>

record runtime =
  GetDockerConfigList :: "error + DockerConfig list"
  GetDockerConfig :: "string \<Rightarrow> error + DockerConfig"

datatype call = GetDockerConfigListCall | GetDockerConfigCall string

text \<open>\<open>api.Event\<close>, the envelope: the fields the translator sets.\<close>

record api_Event =
  evContainerId :: string
  evContainerName :: string
  evImageId :: string
  evImageName :: string
  evEvent :: "addr option"

datatype panic =
    InterfaceConversion
  | NilPointerDereference
  | AssignmentToEntryInNilMap
  | InvalidValueForContainerState

text \<open>
  The argument of the translator is an \<open>interface{}\<close>: the nil interface, a
  \<open>*container.Event\<close> (which may be a nil pointer), or a value of another type.
\<close>

datatype iface =
    NilInterface
  | ContainerEventPtr "container_Event option"
  | OtherValue

text \<open>
  The process state. \<open>containerCache\<close> is \<open>None\<close> while the map variable is nil.
  \<open>containerCacheOnce\<close> tells whether the \<open>sync.Once\<close> has run. \<open>calls\<close> is a ghost
  field: the calls made to the runtime-introspection package, in order. The two merge
  buffers are initialised by \<open>make\<close> and never set to nil, so they are plain maps and
  the source's \<open>== nil\<close> guards on them never fire. The calls are sequential, and
  \<open>containerCacheLock\<close> is not part of the state: it is taken and released around
  each access of the map, except that a panic at the write leaves it held.
\<close>

record state =
  heap :: "ContainerEvent list"
  containerCreated :: "string \<rightharpoonup> addr"
  containerStarted :: "string \<rightharpoonup> addr"
  containerCache :: "(string \<rightharpoonup> addr) option"
  containerCacheOnce :: bool
  calls :: "call list"

definition init_state :: state where
  "init_state =
     \<lparr>heap = [], containerCreated = Map.empty, containerStarted = Map.empty,
      containerCache = None, containerCacheOnce = False, calls = []\<rparr>"

section \<open>Heap operations\<close>

text \<open>\<open>&api.ContainerEvent{...}\<close>: a fresh cell.\<close>

definition alloc :: "ContainerEvent \<Rightarrow> state \<Rightarrow> addr \<times> state" where
  "alloc v s = (length (heap s), s\<lparr>heap := heap s @ [v]\<rparr>)"

text \<open>An assignment to fields of the struct behind a pointer.\<close>

definition modify :: "addr \<Rightarrow> (ContainerEvent \<Rightarrow> ContainerEvent) \<Rightarrow> state \<Rightarrow> state" where
  "modify p f s = s\<lparr>heap := (heap s)[p := f (heap s ! p)]\<rparr>"

definition deref :: "state \<Rightarrow> addr \<Rightarrow> ContainerEvent" where
  "deref s p = heap s ! p"

section \<open>Constructors of events\<close>

definition newContainerCreated :: "string \<Rightarrow> state \<Rightarrow> addr \<times> state" where
  "newContainerCreated cID s =
     alloc (zeroContainerEvent\<lparr>Type := CONTAINER_EVENT_TYPE_CREATED\<rparr>) s"

definition newContainerRunning :: "string \<Rightarrow> state \<Rightarrow> addr \<times> state" where
  "newContainerRunning cID s =
     alloc (zeroContainerEvent\<lparr>Type := CONTAINER_EVENT_TYPE_RUNNING\<rparr>) s"

definition newContainerExited :: "string \<Rightarrow> state \<Rightarrow> addr \<times> state" where
  "newContainerExited cID s =
     alloc (zeroContainerEvent\<lparr>Type := CONTAINER_EVENT_TYPE_EXITED\<rparr>) s"

definition newContainerDestroyed :: "string \<Rightarrow> state \<Rightarrow> addr \<times> state" where
  "newContainerDestroyed cID s =
     alloc (zeroContainerEvent\<lparr>Type := CONTAINER_EVENT_TYPE_DESTROYED\<rparr>) s"

text \<open>
  Modelled from the spec: \<open>newEventFromContainer\<close>, which is defined in a file of the
  package that is not among the sources. It builds the outer event for a container
  ID; the name, the image fields and the payload are still unset.
\<close>

definition newEventFromContainer :: "string \<Rightarrow> api_Event" where
  "newEventFromContainer cID =
     \<lparr>evContainerId = cID, evContainerName = [], evImageId = [], evImageName = [],
      evEvent = None\<rparr>"

section \<open>The metadata cache\<close>

text \<open>The loop of \<open>newContainerCache\<close> over the enumerated containers.\<close>

fun fillCache :: "DockerConfig list \<Rightarrow> (string \<rightharpoonup> addr) \<Rightarrow> state \<Rightarrow> (string \<rightharpoonup> addr) \<times> state" where
  "fillCache [] contCache s = (contCache, s)"
| "fillCache (dockerConfig # rest) contCache s =
     (let (ce, s1) = alloc (zeroContainerEvent
                 \<lparr>Type := CONTAINER_EVENT_TYPE_UNKNOWN,
                  Name := dcName dockerConfig,
                  ImageId := dcImage dockerConfig,
                  ImageName := dcConfigImage dockerConfig\<rparr>) s
      in fillCache rest (contCache(dcID dockerConfig \<mapsto> ce)) s1)"

definition newContainerCache :: "runtime \<Rightarrow> state \<Rightarrow> ((string \<rightharpoonup> addr) option \<times> error option) \<times> state" where
  "newContainerCache env s =
     (let s1 = s\<lparr>calls := calls s @ [GetDockerConfigListCall]\<rparr>
      in case GetDockerConfigList env of
           Inl err \<Rightarrow> ((None, Some err), s1)
         | Inr dockerConfigList \<Rightarrow>
             (let (contCache, s2) = fillCache dockerConfigList Map.empty s1
              in ((Some contCache, None), s2)))"

text \<open>
  \<open>containerCacheOnce.Do(func() { containerCache, _ = newContainerCache() })\<close>:
  the first time only; the error is dropped and the map variable is assigned
  whatever came back, nil on failure.
\<close>

definition cacheOnceDo :: "runtime \<Rightarrow> state \<Rightarrow> state" where
  "cacheOnceDo env s =
     (if containerCacheOnce s then s
      else (let (r, s1) = newContainerCache env s
            in s1\<lparr>containerCache := fst r, containerCacheOnce := True\<rparr>))"

text \<open>
  \<open>saveContainerEvent\<close>. Writing an entry of a nil map panics in Go, after the
  \<open>Once\<close> has run; the state reached at the panic is returned with it.
\<close>

definition saveContainerEvent :: "runtime \<Rightarrow> string \<Rightarrow> addr \<Rightarrow> state \<Rightarrow> (panic + unit) \<times> state" where
  "saveContainerEvent env contId ce s =
     (let s1 = cacheOnceDo env s
      in case containerCache s1 of
           None \<Rightarrow> (Inl AssignmentToEntryInNilMap, s1)
         | Some m \<Rightarrow> (Inr (), s1\<lparr>containerCache := Some (m(contId \<mapsto> ce))\<rparr>))"

text \<open>\<open>containerCache[contId]\<close> as a read: a nil map reads as an empty one.\<close>

definition cacheLookup :: "state \<Rightarrow> string \<Rightarrow> addr option" where
  "cacheLookup s contId = (case containerCache s of None \<Rightarrow> None | Some m \<Rightarrow> m contId)"

definition trimImageIdPrefix :: "string \<Rightarrow> string" where
  "trimImageIdPrefix ImageId' =
     (if prefix ''sha256:'' ImageId' then drop 7 ImageId' else ImageId')"

text \<open>
  \<open>getContainerEvent\<close>. The result is the Go pair \<open>(*api.ContainerEvent, error)\<close>:
  a pointer or nil, and an error or nil. Both \<open>return\<close> statements of the source
  give a nil pointer.
\<close>

definition getContainerEvent ::
  "runtime \<Rightarrow> string \<Rightarrow> state \<Rightarrow> (panic + (addr option \<times> error option)) \<times> state" where
  "getContainerEvent env contId s =
     (let s1 = cacheOnceDo env s
      in case cacheLookup s1 contId of
           Some ce \<Rightarrow> (Inr (None, None), s1)
         | None \<Rightarrow>
             (let s2 = s1\<lparr>calls := calls s1 @ [GetDockerConfigCall contId]\<rparr>
              in case GetDockerConfig env contId of
                   Inl err \<Rightarrow> (Inr (None, Some err), s2)
                 | Inr dc \<Rightarrow>
                     (let (ce, s3) = alloc (zeroContainerEvent
                                 \<lparr>Name := dcName dc,
                                  ImageId := trimImageIdPrefix (dcImage dc),
                                  ImageName := dcConfigImage dc\<rparr>) s2;
                          (r, s4) = saveContainerEvent env contId ce s3
                      in case r of
                           Inl pn \<Rightarrow> (Inl pn, s4)
                         | Inr u \<Rightarrow> (Inr (None, None), s4))))"

section \<open>The translator\<close>

text \<open>The \<open>ContainerCreated\<close> case: the event to emit, or nil.\<close>

definition translateCreated ::
  "runtime \<Rightarrow> container_Event \<Rightarrow> state \<Rightarrow> (panic + addr option) \<times> state" where
  "translateCreated env ce s =
     (let (ece, s1) =
            (case containerCreated s (ceID ce) of
               Some p \<Rightarrow> (p, s)
             | None \<Rightarrow>
                 (let (p, s') = newContainerCreated (ceID ce) s
                  in (p, modify p (\<lambda>e. e\<lparr>Name := ceName ce, ImageId := ceImageID ce,
                                          ImageName := ceImage ce\<rparr>) s')));
          s2 = (if length (ceDockerConfig ce) > length (DockerConfigJson (deref s1 ece))
                then modify ece (\<lambda>e. e\<lparr>DockerConfigJson := ceDockerConfig ce\<rparr>) s1
                else s1)
      in if containerCreated s2 (ceID ce) = None
         then (let s3 = s2\<lparr>containerCreated := (containerCreated s2)(ceID ce \<mapsto> ece)\<rparr>;
                   (r, s4) = saveContainerEvent env (ceID ce) ece s3
               in case r of Inl pn \<Rightarrow> (Inl pn, s4) | Inr u \<Rightarrow> (Inr None, s4))
         else (Inr (Some ece),
               s2\<lparr>containerCreated := (containerCreated s2)(ceID ce := None)\<rparr>))"

text \<open>The \<open>ContainerStarted\<close> case.\<close>

definition translateStarted ::
  "runtime \<Rightarrow> container_Event \<Rightarrow> state \<Rightarrow> (panic + addr option) \<times> state" where
  "translateStarted env ce s =
     (let (ece, s1) =
            (case containerStarted s (ceID ce) of
               Some p \<Rightarrow> (p, s)
             | None \<Rightarrow> newContainerRunning (ceID ce) s);
          s2 = (if cePid ce \<noteq> 0
                then modify ece (\<lambda>e. e\<lparr>HostPid := to_int32 (cePid ce)\<rparr>) s1 else s1);
          s3 = (if length (ceDockerConfig ce) > 0
                then modify ece (\<lambda>e. e\<lparr>DockerConfigJson := ceDockerConfig ce\<rparr>) s2 else s2);
          s4 = (if length (ceOciConfig ce) > 0
                then modify ece (\<lambda>e. e\<lparr>OciConfigJson := ceOciConfig ce\<rparr>) s3 else s3)
      in if containerStarted s4 (ceID ce) = None
         then (let s5 = s4\<lparr>containerStarted := (containerStarted s4)(ceID ce \<mapsto> ece)\<rparr>;
                   (r, s6) = saveContainerEvent env (ceID ce) ece s5
               in case r of Inl pn \<Rightarrow> (Inl pn, s6) | Inr u \<Rightarrow> (Inr None, s6))
         else (Inr (Some ece),
               s4\<lparr>containerStarted := (containerStarted s4)(ceID ce := None)\<rparr>))"

text \<open>The \<open>ContainerStopped\<close> case.\<close>

definition translateStopped ::
  "container_Event \<Rightarrow> state \<Rightarrow> (panic + addr option) \<times> state" where
  "translateStopped ce s =
     (let (ece, s1) = newContainerExited (ceID ce) s;
          s2 = (if cePid ce \<noteq> 0
                then modify ece (\<lambda>e. e\<lparr>HostPid := to_int32 (cePid ce)\<rparr>) s1 else s1);
          s3 = (if length (ceDockerConfig ce) > 0
                then modify ece (\<lambda>e. e\<lparr>DockerConfigJson := ceDockerConfig ce\<rparr>) s2 else s2);
          s4 = modify ece (\<lambda>e. e\<lparr>Name := ceName ce, ImageId := ceImageID ce,
                                  ImageName := ceImage ce, ExitCode := ceExitCode ce\<rparr>) s3
      in (Inr (Some ece), s4))"

text \<open>The \<open>ContainerRemoved\<close> case.\<close>

definition translateRemoved ::
  "container_Event \<Rightarrow> state \<Rightarrow> (panic + addr option) \<times> state" where
  "translateRemoved ce s =
     (let (ece, s1) = newContainerDestroyed (ceID ce) s in (Inr (Some ece), s1))"

text \<open>
  The part after the \<open>switch\<close>: for a non-nil event, the blobs of the notification
  overwrite those of the event when they are not empty, the event is saved in the
  cache, and the envelope is built around it.
\<close>

definition emitContainerEvent ::
  "runtime \<Rightarrow> container_Event \<Rightarrow> addr option \<Rightarrow> state \<Rightarrow> (panic + api_Event option) \<times> state" where
  "emitContainerEvent env ce ece' s =
     (case ece' of
        None \<Rightarrow> (Inr None, s)
      | Some ece \<Rightarrow>
          (let s1 = (if length (ceDockerConfig ce) > 0
                     then modify ece (\<lambda>e. e\<lparr>DockerConfigJson := ceDockerConfig ce\<rparr>) s else s);
               s2 = (if length (ceOciConfig ce) > 0
                     then modify ece (\<lambda>e. e\<lparr>OciConfigJson := ceOciConfig ce\<rparr>) s1 else s1);
               (r, s3) = saveContainerEvent env (ceID ce) ece s2
           in case r of
                Inl pn \<Rightarrow> (Inl pn, s3)
              | Inr u \<Rightarrow>
                  (let ev = newEventFromContainer (ceID ce)
                   in (Inr (Some (ev\<lparr>evContainerName := Name (deref s3 ece),
                                     evImageId := ImageId (deref s3 ece),
                                     evImageName := ImageName (deref s3 ece),
                                     evEvent := Some ece\<rparr>)), s3))))"

text \<open>
  \<open>translateContainerEvents\<close>: the result is \<open>Inr None\<close> for the nil return (nothing
  emitted), \<open>Inr (Some ev)\<close> for an emitted envelope, and \<open>Inl\<close> for a panic.
\<close>

definition translateContainerEvents ::
  "runtime \<Rightarrow> iface \<Rightarrow> state \<Rightarrow> (panic + api_Event option) \<times> state" where
  "translateContainerEvents env e s =
     (case e of
        NilInterface \<Rightarrow> (Inl InterfaceConversion, s)
      | OtherValue \<Rightarrow> (Inl InterfaceConversion, s)
      | ContainerEventPtr None \<Rightarrow> (Inl NilPointerDereference, s)
      | ContainerEventPtr (Some ce) \<Rightarrow>
          (let (r, s1) =
                 (case ceState ce of
                    ContainerCreated \<Rightarrow> translateCreated env ce s
                  | ContainerStarted \<Rightarrow> translateStarted env ce s
                  | ContainerStopped \<Rightarrow> translateStopped ce s
                  | ContainerRemoved \<Rightarrow> translateRemoved ce s
                  | ContainerStateOther v \<Rightarrow> (Inl InvalidValueForContainerState, s))
           in case r of
                Inl pn \<Rightarrow> (Inl pn, s1)
              | Inr ece \<Rightarrow> emitContainerEvent env ce ece s1))"

text \<open>
  The cache can be written: either the \<open>Once\<close> has run and left a map, or it has not
  run yet and the enumeration of the containers will succeed when it does.
\<close>

definition cacheUsable :: "runtime \<Rightarrow> state \<Rightarrow> bool" where
  "cacheUsable env s =
     (if containerCacheOnce s then containerCache s \<noteq> None
      else (case GetDockerConfigList env of Inl err \<Rightarrow> False | Inr l \<Rightarrow> True))"


section \<open>The branches in closed form\<close>

text \<open>
  The source updates an event field by field, each update behind its own test. The
  functions below give, for a notification, the value an event has once a whole group
  of such updates has run; the lemmas of the later sections prove that the translator
  computes exactly these. \<open>passSave\<close> is the end of a first notification of a pair:
  the event is saved and nothing is emitted.
\<close>

definition overwriteBlobs :: "container_Event \<Rightarrow> ContainerEvent \<Rightarrow> ContainerEvent" where
  "overwriteBlobs ce e =
     e\<lparr>DockerConfigJson := (if ceDockerConfig ce \<noteq> [] then ceDockerConfig ce else DockerConfigJson e),
       OciConfigJson := (if ceOciConfig ce \<noteq> [] then ceOciConfig ce else OciConfigJson e)\<rparr>"

definition startedFields :: "container_Event \<Rightarrow> ContainerEvent \<Rightarrow> ContainerEvent" where
  "startedFields ce e =
     e\<lparr>HostPid := (if cePid ce \<noteq> 0 then to_int32 (cePid ce) else HostPid e),
       DockerConfigJson := (if ceDockerConfig ce \<noteq> [] then ceDockerConfig ce else DockerConfigJson e),
       OciConfigJson := (if ceOciConfig ce \<noteq> [] then ceOciConfig ce else OciConfigJson e)\<rparr>"

definition longerBlob :: "container_Event \<Rightarrow> ContainerEvent \<Rightarrow> ContainerEvent" where
  "longerBlob ce e =
     e\<lparr>DockerConfigJson := (if length (ceDockerConfig ce) > length (DockerConfigJson e)
                            then ceDockerConfig ce else DockerConfigJson e)\<rparr>"

definition stoppedEvent :: "container_Event \<Rightarrow> ContainerEvent" where
  "stoppedEvent ce =
     \<lparr>Type = CONTAINER_EVENT_TYPE_EXITED, Name = ceName ce, ImageId = ceImageID ce,
      ImageName = ceImage ce,
      HostPid = (if cePid ce \<noteq> 0 then to_int32 (cePid ce) else 0),
      DockerConfigJson = ceDockerConfig ce, OciConfigJson = [], ExitCode = ceExitCode ce\<rparr>"

definition passSave :: "(panic + unit) \<times> state \<Rightarrow> (panic + addr option) \<times> state" where
  "passSave x = (case x of (Inl pn, s) \<Rightarrow> (Inl pn, s) | (Inr u, s) \<Rightarrow> (Inr None, s))"


section \<open>Runs of the process\<close>

text \<open>
  The package is entered through the translator and through the cache lookup. A run
  is a sequence of such calls from the initial state, each with the behaviour the
  runtime shows at that call. A call that panics leaves the state it had reached, as
  it does under a deferred \<open>recover\<close>, and the run goes on from there.
\<close>

datatype operation = Translate iface | Lookup string

definition step :: "runtime \<Rightarrow> operation \<Rightarrow> state \<Rightarrow> state" where
  "step env op s =
     (case op of
        Translate e \<Rightarrow> snd (translateContainerEvents env e s)
      | Lookup cid \<Rightarrow> snd (getContainerEvent env cid s))"

fun run :: "(runtime \<times> operation) list \<Rightarrow> state \<Rightarrow> state" where
  "run [] s = s"
| "run (x # rest) s = run rest (step (fst x) (snd x) s)"

text \<open>
  Two events agree in the fields that name the container and its phase; a state
  \<open>s'\<close> frames a state \<open>s\<close> when it has the same \<open>Started\<close> buffer, keeps every
  cell of the heap of \<open>s\<close>, and agrees with it on those fields. \<open>startedPending\<close> is
  the invariant of the \<open>Started\<close> buffer: every entry points to an allocated event that
  is still as \<open>newContainerRunning\<close> made it, in those fields.
\<close>

definition sameIdentity :: "ContainerEvent \<Rightarrow> ContainerEvent \<Rightarrow> bool" where
  "sameIdentity e e' =
     (Type e' = Type e \<and> Name e' = Name e \<and> ImageId e' = ImageId e \<and> ImageName e' = ImageName e)"

definition frame :: "state \<Rightarrow> state \<Rightarrow> bool" where
  "frame s s' =
     (containerStarted s' = containerStarted s \<and> length (heap s) \<le> length (heap s') \<and>
      (\<forall>p<length (heap s). sameIdentity (heap s ! p) (heap s' ! p)))"

definition bareRunning :: "ContainerEvent \<Rightarrow> bool" where
  "bareRunning e =
     (Type e = CONTAINER_EVENT_TYPE_RUNNING \<and> Name e = [] \<and> ImageId e = [] \<and> ImageName e = [])"

definition startedPending :: "state \<Rightarrow> bool" where
  "startedPending s =
     (\<forall>cid p. containerStarted s cid = Some p \<longrightarrow> p < length (heap s) \<and> bareRunning (heap s ! p))"

section \<open>Concrete inputs\<close>

text \<open>
  Four behaviours of the runtime: no container exists (the enumeration is empty and
  every single lookup fails); the enumeration is empty and every single lookup
  succeeds; the enumeration fails and every single lookup succeeds; the enumeration
  and every single lookup fail. The notifications are those at which theorems are
  evaluated.
\<close>

definition demo_runtime :: runtime where
  "demo_runtime =
     \<lparr>GetDockerConfigList = Inr [], GetDockerConfig = (\<lambda>cid. Inl ''no such container'')\<rparr>"

definition lookup_runtime :: runtime where
  "lookup_runtime =
     \<lparr>GetDockerConfigList = Inr [],
      GetDockerConfig = (\<lambda>cid. Inr \<lparr>dcID = cid, dcName = ''web'', dcImage = ''sha256:0a1b'',
                                     dcConfigImage = ''nginx''\<rparr>)\<rparr>"

definition broken_runtime :: runtime where
  "broken_runtime =
     \<lparr>GetDockerConfigList = Inl ''cannot list containers'',
      GetDockerConfig = (\<lambda>cid. Inr \<lparr>dcID = cid, dcName = ''web'', dcImage = ''sha256:0a1b'',
                                     dcConfigImage = ''nginx''\<rparr>)\<rparr>"

definition dead_runtime :: runtime where
  "dead_runtime =
     \<lparr>GetDockerConfigList = Inl ''cannot list containers'',
      GetDockerConfig = (\<lambda>cid. Inl ''no such container'')\<rparr>"

definition created_web :: container_Event where
  "created_web =
     \<lparr>ceID = ''c1'', ceName = ''web'', ceImageID = [], ceImage = [],
      ceState = ContainerCreated, cePid = 0, ceDockerConfig = [], ceOciConfig = [],
      ceExitCode = 0\<rparr>"

definition created_cfg :: container_Event where
  "created_cfg =
     \<lparr>ceID = ''c1'', ceName = [], ceImageID = [], ceImage = [],
      ceState = ContainerCreated, cePid = 0,
      ceDockerConfig = ''{01234567890123456789012345678901234567}'', ceOciConfig = [],
      ceExitCode = 0\<rparr>"



definition started_docker :: container_Event where
  "started_docker =
     \<lparr>ceID = ''c1'', ceName = ''web'', ceImageID = ''0a1b'', ceImage = ''nginx'',
      ceState = ContainerStarted, cePid = 4242, ceDockerConfig = ''{docker}'', ceOciConfig = [],
      ceExitCode = 0\<rparr>"

definition started_oci :: container_Event where
  "started_oci =
     \<lparr>ceID = ''c1'', ceName = [], ceImageID = [], ceImage = [],
      ceState = ContainerStarted, cePid = 0, ceDockerConfig = [], ceOciConfig = ''{oci}'',
      ceExitCode = 0\<rparr>"

definition stopped_c1 :: container_Event where
  "stopped_c1 =
     \<lparr>ceID = ''c1'', ceName = ''web'', ceImageID = ''0a1b'', ceImage = ''nginx'',
      ceState = ContainerStopped, cePid = 4242, ceDockerConfig = [], ceOciConfig = [],
      ceExitCode = 137\<rparr>"

definition removed_c2 :: container_Event where
  "removed_c2 =
     \<lparr>ceID = ''c2'', ceName = ''db'', ceImageID = ''0c2d'', ceImage = ''postgres'',
      ceState = ContainerRemoved, cePid = 77, ceDockerConfig = ''{docker}'', ceOciConfig = [],
      ceExitCode = 3\<rparr>"

definition invalid_c1 :: container_Event where
  "invalid_c1 =
     \<lparr>ceID = ''c1'', ceName = ''web'', ceImageID = ''0a1b'', ceImage = ''nginx'',
      ceState = ContainerStateOther 0, cePid = 0, ceDockerConfig = [], ceOciConfig = [],
      ceExitCode = 0\<rparr>"

section \<open>Conversions\<close>

text \<open>
  A PID that fits into 32 bits with a sign survives the conversion to \<open>int32\<close>, and
  \<open>trimImageIdPrefix\<close> cuts the digest prefix off, or leaves the ID alone.
\<close>

lemma to_int32_in_range:
  "- (2 ^ 31) \<le> i \<Longrightarrow> i < 2 ^ 31 \<Longrightarrow> sint (to_int32 i) = i"
  by (simp add: to_int32_def sint_sbintrunc' signed_take_bit_int_eq_self)

lemma to_int32_zero: "to_int32 0 = 0"
  by (simp add: to_int32_def)

lemma trimImageIdPrefix_prefix: "trimImageIdPrefix (''sha256:'' @ x) = x"
  by (simp add: trimImageIdPrefix_def)

lemma trimImageIdPrefix_other: "\<not> prefix ''sha256:'' x \<Longrightarrow> trimImageIdPrefix x = x"
  by (simp add: trimImageIdPrefix_def)

section \<open>The one-time bootstrap and the cache write\<close>

text \<open>
  The bootstrap only appends cells to the heap and sets the cache, the flag of the
  \<open>Once\<close> and the call log; the write into the cache succeeds exactly when the cache
  is usable.
\<close>

lemma fillCache_state:
  "\<exists>cells. snd (fillCache l m s) = s\<lparr>heap := heap s @ cells\<rparr>"
proof (induction l arbitrary: m s)
  case Nil
  show ?case by (simp add: exI [of _ "[]"])
next
  case (Cons dc l)
  define c where "c = zeroContainerEvent
                 \<lparr>Type := CONTAINER_EVENT_TYPE_UNKNOWN, Name := dcName dc,
                  ImageId := dcImage dc, ImageName := dcConfigImage dc\<rparr>"
  define s1 where "s1 = s\<lparr>heap := heap s @ [c]\<rparr>"
  have step: "fillCache (dc # l) m s = fillCache l (m(dcID dc \<mapsto> length (heap s))) s1"
    by (simp add: alloc_def c_def s1_def)
  obtain cells where "snd (fillCache l (m(dcID dc \<mapsto> length (heap s))) s1) = s1\<lparr>heap := heap s1 @ cells\<rparr>"
    using Cons.IH by blast
  then have "snd (fillCache (dc # l) m s) = s\<lparr>heap := heap s @ (c # cells)\<rparr>"
    unfolding step by (simp add: s1_def)
  then show ?case by blast
qed

lemma cacheOnceDo_done: "containerCacheOnce s \<Longrightarrow> cacheOnceDo env s = s"
  by (simp add: cacheOnceDo_def)

lemma cacheOnceDo_state:
  "\<exists>cells cch cs. cacheOnceDo env s =
      s\<lparr>heap := heap s @ cells, containerCache := cch, containerCacheOnce := True, calls := cs\<rparr>"
proof (cases "containerCacheOnce s")
  case True
  then have "cacheOnceDo env s = s\<lparr>heap := heap s @ [], containerCache := containerCache s, containerCacheOnce := True, calls := calls s\<rparr>"
    by (simp add: cacheOnceDo_def)
  then show ?thesis by blast
next
  case False
  define s0 where "s0 = s\<lparr>calls := calls s @ [GetDockerConfigListCall]\<rparr>"
  show ?thesis
  proof (cases "GetDockerConfigList env")
    case (Inl err)
    with False have "cacheOnceDo env s = s\<lparr>heap := heap s @ [], containerCache := None, containerCacheOnce := True, calls := calls s @ [GetDockerConfigListCall]\<rparr>"
      by (simp add: cacheOnceDo_def newContainerCache_def)
    then show ?thesis by blast
  next
    case (Inr l)
    obtain cells where c: "snd (fillCache l Map.empty s0) = s0\<lparr>heap := heap s0 @ cells\<rparr>"
      using fillCache_state by blast
    with False Inr have "cacheOnceDo env s = s\<lparr>heap := heap s @ cells, 
       containerCache := Some (fst (fillCache l Map.empty s0)), containerCacheOnce := True, calls := calls s @ [GetDockerConfigListCall]\<rparr>"
      by (simp add: cacheOnceDo_def newContainerCache_def s0_def case_prod_beta Let_def)
    then show ?thesis by blast
  qed
qed

lemma cacheOnceDo_usable:
  "cacheUsable env s \<Longrightarrow> \<exists>m. containerCache (cacheOnceDo env s) = Some m"
  by (auto simp: cacheUsable_def cacheOnceDo_def newContainerCache_def split: if_splits sum.splits prod.splits)

lemma cacheOnceDo_once [simp]: "containerCacheOnce (cacheOnceDo env s)"
  by (auto simp: cacheOnceDo_def split: prod.splits)

lemma cacheOnceDo_created [simp]: "containerCreated (cacheOnceDo env s) = containerCreated s"
  using cacheOnceDo_state [of env s] by auto

lemma cacheOnceDo_started [simp]: "containerStarted (cacheOnceDo env s) = containerStarted s"
  using cacheOnceDo_state [of env s] by auto

lemma cacheOnceDo_heap: "\<exists>cells. heap (cacheOnceDo env s) = heap s @ cells"
  using cacheOnceDo_state [of env s] by auto

lemma cacheOnceDo_nth: "p < length (heap s) \<Longrightarrow> heap (cacheOnceDo env s) ! p = heap s ! p"
  using cacheOnceDo_heap [of env s] by (auto simp: nth_append)

lemma cacheOnceDo_length: "length (heap s) \<le> length (heap (cacheOnceDo env s))"
  using cacheOnceDo_heap [of env s] by auto

lemma cacheUsable_heap [simp]: "cacheUsable env (s\<lparr>heap := h\<rparr>) = cacheUsable env s"
  by (simp add: cacheUsable_def)

lemma cacheUsable_created [simp]: "cacheUsable env (s\<lparr>containerCreated := m\<rparr>) = cacheUsable env s"
  by (simp add: cacheUsable_def)

lemma cacheUsable_started [simp]: "cacheUsable env (s\<lparr>containerStarted := m\<rparr>) = cacheUsable env s"
  by (simp add: cacheUsable_def)

lemma cacheUsable_after [simp]:
  "containerCacheOnce s \<Longrightarrow> containerCache s = Some m \<Longrightarrow> cacheUsable env s"
  by (simp add: cacheUsable_def)

lemma save_usable:
  assumes "cacheUsable env s"
  shows "\<exists>m. containerCache (cacheOnceDo env s) = Some m \<and>
             saveContainerEvent env cid p s =
               (Inr (), (cacheOnceDo env s)\<lparr>containerCache := Some (m(cid \<mapsto> p))\<rparr>)"
proof -
  obtain m where "containerCache (cacheOnceDo env s) = Some m"
    using cacheOnceDo_usable [OF assms] by blast
  then show ?thesis by (simp add: saveContainerEvent_def)
qed

lemma save_unusable:
  assumes "\<not> cacheUsable env s"
  shows "saveContainerEvent env cid p s = (Inl AssignmentToEntryInNilMap, cacheOnceDo env s)"
  using assms
  by (auto simp: saveContainerEvent_def cacheUsable_def cacheOnceDo_def newContainerCache_def
           split: if_splits sum.splits option.splits)

lemma passSave_usable:
  assumes "cacheUsable env s"
  shows "\<exists>m. containerCache (cacheOnceDo env s) = Some m \<and>
             passSave (saveContainerEvent env cid p s) =
               (Inr None, (cacheOnceDo env s)\<lparr>containerCache := Some (m(cid \<mapsto> p))\<rparr>)"
  using save_usable [OF assms, of cid p] by (auto simp: passSave_def)

lemma save_heap: "heap (snd (saveContainerEvent env cid p s)) = heap (cacheOnceDo env s)"
  by (simp add: saveContainerEvent_def Let_def split: option.split)

lemma save_started: "containerStarted (snd (saveContainerEvent env cid p s)) = containerStarted s"
  by (simp add: saveContainerEvent_def Let_def split: option.split)

section \<open>The translator, branch by branch\<close>

text \<open>
  Each branch of the \<open>switch\<close>, and the part after it, as one update of the state.
\<close>

lemma emit_unfold:
  "emitContainerEvent env ce (Some p) s =
     (case saveContainerEvent env (ceID ce) p
             (s\<lparr>heap := (heap s)[p := overwriteBlobs ce (heap s ! p)]\<rparr>) of
        (Inl pn, s3) \<Rightarrow> (Inl pn, s3)
      | (Inr u, s3) \<Rightarrow>
          (Inr (Some \<lparr>evContainerId = ceID ce, evContainerName = Name (deref s3 p),
                       evImageId = ImageId (deref s3 p), evImageName = ImageName (deref s3 p),
                       evEvent = Some p\<rparr>), s3))"
  by (cases "p < length (heap s)")
     (simp_all add: emitContainerEvent_def Let_def modify_def overwriteBlobs_def
        list_update_beyond newEventFromContainer_def split: prod.split sum.split)

lemma translateStarted_unfold:
  "translateStarted env ce s =
     (case containerStarted s (ceID ce) of
        Some p \<Rightarrow>
          (Inr (Some p),
           s\<lparr>heap := (heap s)[p := startedFields ce (heap s ! p)],
             containerStarted := (containerStarted s)(ceID ce := None)\<rparr>)
      | None \<Rightarrow>
          passSave (saveContainerEvent env (ceID ce) (length (heap s))
            (s\<lparr>heap := heap s @ [startedFields ce
                        (zeroContainerEvent\<lparr>Type := CONTAINER_EVENT_TYPE_RUNNING\<rparr>)],
               containerStarted := (containerStarted s)(ceID ce \<mapsto> length (heap s))\<rparr>)))"
proof (cases "containerStarted s (ceID ce)")
  case None
  then show ?thesis
    by (simp add: translateStarted_def newContainerRunning_def alloc_def Let_def modify_def
          startedFields_def passSave_def zeroContainerEvent_def split: prod.split sum.split)
next
  case (Some p)
  then show ?thesis
    by (cases "p < length (heap s)")
       (simp_all add: translateStarted_def Let_def modify_def startedFields_def list_update_beyond)
qed

lemma translateCreated_unfold:
  "translateCreated env ce s =
     (case containerCreated s (ceID ce) of
        Some p \<Rightarrow>
          (Inr (Some p),
           s\<lparr>heap := (heap s)[p := longerBlob ce (heap s ! p)],
             containerCreated := (containerCreated s)(ceID ce := None)\<rparr>)
      | None \<Rightarrow>
          passSave (saveContainerEvent env (ceID ce) (length (heap s))
            (s\<lparr>heap := heap s @ [\<lparr>Type = CONTAINER_EVENT_TYPE_CREATED, Name = ceName ce,
                                  ImageId = ceImageID ce, ImageName = ceImage ce, HostPid = 0,
                                  DockerConfigJson = ceDockerConfig ce, OciConfigJson = [],
                                  ExitCode = 0\<rparr>],
               containerCreated := (containerCreated s)(ceID ce \<mapsto> length (heap s))\<rparr>)))"
proof (cases "containerCreated s (ceID ce)")
  case None
  then show ?thesis
    by (simp add: translateCreated_def newContainerCreated_def alloc_def Let_def modify_def deref_def
          passSave_def zeroContainerEvent_def split: prod.split sum.split)
next
  case (Some p)
  then show ?thesis
    by (cases "p < length (heap s)")
       (simp_all add: translateCreated_def Let_def modify_def deref_def longerBlob_def list_update_beyond)
qed

lemma translateStopped_unfold:
  "translateStopped ce s =
     (Inr (Some (length (heap s))), s\<lparr>heap := heap s @ [stoppedEvent ce]\<rparr>)"
  by (simp add: translateStopped_def newContainerExited_def alloc_def Let_def modify_def
        stoppedEvent_def zeroContainerEvent_def)

lemma translateRemoved_unfold:
  "translateRemoved ce s =
     (Inr (Some (length (heap s))),
      s\<lparr>heap := heap s @ [zeroContainerEvent\<lparr>Type := CONTAINER_EVENT_TYPE_DESTROYED\<rparr>]\<rparr>)"
  by (simp add: translateRemoved_def newContainerDestroyed_def alloc_def)

lemma translate_unfold:
  "translateContainerEvents env (ContainerEventPtr (Some ce)) s =
     (case (case ceState ce of
              ContainerCreated \<Rightarrow> translateCreated env ce s
            | ContainerStarted \<Rightarrow> translateStarted env ce s
            | ContainerStopped \<Rightarrow> translateStopped ce s
            | ContainerRemoved \<Rightarrow> translateRemoved ce s
            | ContainerStateOther v \<Rightarrow> (Inl InvalidValueForContainerState, s)) of
        (Inl pn, s1) \<Rightarrow> (Inl pn, s1)
      | (Inr ece, s1) \<Rightarrow> emitContainerEvent env ce ece s1)"
  by (simp add: translateContainerEvents_def split: prod.split sum.split)

text \<open>
  With a usable cache: what an emission does, and what the first and the second
  notification of a \<open>Started\<close> or \<open>Created\<close> pair do.
\<close>

lemma emit_usable:
  assumes u: "cacheUsable env s" and p: "p < length (heap s)"
  shows "\<exists>s' m.
     emitContainerEvent env ce (Some p) s =
       (Inr (Some \<lparr>evContainerId = ceID ce, evContainerName = Name (heap s ! p),
                    evImageId = ImageId (heap s ! p), evImageName = ImageName (heap s ! p),
                    evEvent = Some p\<rparr>), s')
     \<and> s' = (cacheOnceDo env (s\<lparr>heap := (heap s)[p := overwriteBlobs ce (heap s ! p)]\<rparr>))
               \<lparr>containerCache := Some (m(ceID ce \<mapsto> p))\<rparr>
     \<and> containerCache (cacheOnceDo env (s\<lparr>heap := (heap s)[p := overwriteBlobs ce (heap s ! p)]\<rparr>)) = Some m
     \<and> deref s' p = overwriteBlobs ce (heap s ! p)"
proof -
  define s2 where "s2 = s\<lparr>heap := (heap s)[p := overwriteBlobs ce (heap s ! p)]\<rparr>"
  have u2: "cacheUsable env s2" using u by (simp add: s2_def)
  obtain m where m: "containerCache (cacheOnceDo env s2) = Some m"
    and sv: "saveContainerEvent env (ceID ce) p s2 =
               (Inr (), (cacheOnceDo env s2)\<lparr>containerCache := Some (m(ceID ce \<mapsto> p))\<rparr>)"
    using save_usable [OF u2] by blast
  have p2: "p < length (heap s2)" using p by (simp add: s2_def)
  have d: "heap (cacheOnceDo env s2) ! p = overwriteBlobs ce (heap s ! p)"
    using cacheOnceDo_nth [OF p2, of env] p by (simp add: s2_def)
  have "emitContainerEvent env ce (Some p) s =
       (Inr (Some \<lparr>evContainerId = ceID ce, evContainerName = Name (heap s ! p),
                    evImageId = ImageId (heap s ! p), evImageName = ImageName (heap s ! p),
                    evEvent = Some p\<rparr>), (cacheOnceDo env s2)\<lparr>containerCache := Some (m(ceID ce \<mapsto> p))\<rparr>)"
    unfolding emit_unfold s2_def [symmetric]
    using sv d by (simp add: deref_def overwriteBlobs_def)
  with m d show ?thesis by (simp add: s2_def deref_def)
qed

lemma fresh_emit:
  assumes u: "cacheUsable env s"
  shows "\<exists>s'. emitContainerEvent env n (Some (length (heap s))) (s\<lparr>heap := heap s @ [v]\<rparr>) =
       (Inr (Some \<lparr>evContainerId = ceID n, evContainerName = Name v,
                    evImageId = ImageId v, evImageName = ImageName v,
                    evEvent = Some (length (heap s))\<rparr>), s')
    \<and> deref s' (length (heap s)) = overwriteBlobs n v
    \<and> containerCreated s' = containerCreated s
    \<and> containerStarted s' = containerStarted s
    \<and> cacheLookup s' (ceID n) = Some (length (heap s))
    \<and> containerCacheOnce s'
    \<and> (containerCacheOnce s \<longrightarrow>
         heap s' = heap s @ [overwriteBlobs n v] \<and> calls s' = calls s \<and>
         (\<forall>cid. cid \<noteq> ceID n \<longrightarrow> cacheLookup s' cid = cacheLookup s cid))"
proof -
  define sa where "sa = s\<lparr>heap := heap s @ [v]\<rparr>"
  define p where "p = length (heap s)"
  have ua: "cacheUsable env sa" and pa: "p < length (heap sa)" and ha: "heap sa ! p = v"
    using u by (simp_all add: sa_def p_def)
  define sb where "sb = sa\<lparr>heap := (heap sa)[p := overwriteBlobs n (heap sa ! p)]\<rparr>"
  obtain s' m where
    e: "emitContainerEvent env n (Some p) sa =
       (Inr (Some \<lparr>evContainerId = ceID n, evContainerName = Name (heap sa ! p),
                    evImageId = ImageId (heap sa ! p), evImageName = ImageName (heap sa ! p),
                    evEvent = Some p\<rparr>), s')"
    and s': "s' = (cacheOnceDo env sb)\<lparr>containerCache := Some (m(ceID n \<mapsto> p))\<rparr>"
    and m: "containerCache (cacheOnceDo env sb) = Some m"
    and d: "deref s' p = overwriteBlobs n (heap sa ! p)"
    using emit_usable [OF ua pa, of n] unfolding sb_def by blast
  have sb_heap: "heap sb = heap s @ [overwriteBlobs n v]"
    by (simp add: sb_def sa_def p_def)
  have 1: "containerCreated s' = containerCreated s" "containerStarted s' = containerStarted s"
    "cacheLookup s' (ceID n) = Some p" "containerCacheOnce s'"
    by (simp_all add: s' sb_def sa_def cacheLookup_def)
  have 2: "heap s' = heap s @ [overwriteBlobs n v] \<and> calls s' = calls s \<and>
         (\<forall>cid. cid \<noteq> ceID n \<longrightarrow> cacheLookup s' cid = cacheLookup s cid)"
    if o: "containerCacheOnce s"
  proof -
    have "containerCacheOnce sb" using o by (simp add: sb_def sa_def)
    then have c: "cacheOnceDo env sb = sb" by (rule cacheOnceDo_done)
    have "containerCache s = Some m" using m unfolding c by (simp add: sb_def sa_def)
    then show ?thesis using sb_heap unfolding s' c by (simp add: cacheLookup_def sb_def sa_def)
  qed
  from e ha have e': "emitContainerEvent env n (Some p) sa =
       (Inr (Some \<lparr>evContainerId = ceID n, evContainerName = Name v,
                    evImageId = ImageId v, evImageName = ImageName v,
                    evEvent = Some p\<rparr>), s')" by simp
  from d ha have d': "deref s' p = overwriteBlobs n v" by simp
  show ?thesis using e' d' 1 2 unfolding sa_def p_def by blast
qed

lemma started_first:
  assumes st: "ceState n = ContainerStarted"
    and buf: "containerStarted s (ceID n) = None"
    and u: "cacheUsable env s"
  shows "\<exists>s'. translateContainerEvents env (ContainerEventPtr (Some n)) s = (Inr None, s')
    \<and> containerStarted s' = (containerStarted s)(ceID n \<mapsto> length (heap s))
    \<and> containerCreated s' = containerCreated s
    \<and> length (heap s) < length (heap s')
    \<and> heap s' ! length (heap s) =
        startedFields n (zeroContainerEvent\<lparr>Type := CONTAINER_EVENT_TYPE_RUNNING\<rparr>)
    \<and> containerCacheOnce s' \<and> containerCache s' \<noteq> None
    \<and> cacheLookup s' (ceID n) = Some (length (heap s))"
proof -
  define v where "v = startedFields n (zeroContainerEvent\<lparr>Type := CONTAINER_EVENT_TYPE_RUNNING\<rparr>)"
  define sa where "sa = s\<lparr>heap := heap s @ [v],
      containerStarted := (containerStarted s)(ceID n \<mapsto> length (heap s))\<rparr>"
  have ua: "cacheUsable env sa" using u by (simp add: sa_def)
  obtain m where m: "containerCache (cacheOnceDo env sa) = Some m"
    and sv: "passSave (saveContainerEvent env (ceID n) (length (heap s)) sa) =
        (Inr None, (cacheOnceDo env sa)\<lparr>containerCache := Some (m(ceID n \<mapsto> length (heap s)))\<rparr>)"
    using passSave_usable [OF ua] by blast
  define s' where "s' = (cacheOnceDo env sa)\<lparr>containerCache := Some (m(ceID n \<mapsto> length (heap s)))\<rparr>"
  have tr: "translateContainerEvents env (ContainerEventPtr (Some n)) s = (Inr None, s')"
    unfolding translate_unfold translateStarted_unfold
    using st buf sv
    by (simp add: sa_def [symmetric] v_def [symmetric] s'_def emitContainerEvent_def)
  obtain cells where cells: "heap (cacheOnceDo env sa) = heap sa @ cells"
    using cacheOnceDo_heap by blast
  have "containerStarted s' = (containerStarted s)(ceID n \<mapsto> length (heap s))"
    by (simp add: s'_def sa_def)
  moreover have "containerCreated s' = containerCreated s"
    by (simp add: s'_def sa_def)
  moreover have "length (heap s) < length (heap s')"
    using cells by (simp add: s'_def sa_def)
  moreover have "heap s' ! length (heap s) = v"
    using cells by (simp add: s'_def sa_def nth_append)
  moreover have "containerCacheOnce s'" "containerCache s' \<noteq> None"
    "cacheLookup s' (ceID n) = Some (length (heap s))"
    by (simp_all add: s'_def cacheLookup_def)
  ultimately show ?thesis using tr unfolding v_def by blast
qed

lemma started_second:
  assumes st: "ceState n = ContainerStarted"
    and buf: "containerStarted s (ceID n) = Some p"
    and p: "p < length (heap s)"
    and u: "cacheUsable env s"
  shows "\<exists>s'. translateContainerEvents env (ContainerEventPtr (Some n)) s =
       (Inr (Some \<lparr>evContainerId = ceID n, evContainerName = Name (heap s ! p),
                    evImageId = ImageId (heap s ! p), evImageName = ImageName (heap s ! p),
                    evEvent = Some p\<rparr>), s')
    \<and> deref s' p = overwriteBlobs n (startedFields n (heap s ! p))
    \<and> containerStarted s' = (containerStarted s)(ceID n := None)
    \<and> containerCreated s' = containerCreated s
    \<and> cacheLookup s' (ceID n) = Some p"
proof -
  define sb where "sb = s\<lparr>heap := (heap s)[p := startedFields n (heap s ! p)],
             containerStarted := (containerStarted s)(ceID n := None)\<rparr>"
  have ub: "cacheUsable env sb" and pb: "p < length (heap sb)"
    using u p by (simp_all add: sb_def)
  have hb: "heap sb ! p = startedFields n (heap s ! p)"
    using p by (simp add: sb_def)
  have nm: "Name (heap sb ! p) = Name (heap s ! p)" "ImageId (heap sb ! p) = ImageId (heap s ! p)"
    "ImageName (heap sb ! p) = ImageName (heap s ! p)"
    using hb by (simp_all add: startedFields_def)
  obtain s' m where
    e: "emitContainerEvent env n (Some p) sb =
       (Inr (Some \<lparr>evContainerId = ceID n, evContainerName = Name (heap sb ! p),
                    evImageId = ImageId (heap sb ! p), evImageName = ImageName (heap sb ! p),
                    evEvent = Some p\<rparr>), s')"
    and s': "s' = (cacheOnceDo env (sb\<lparr>heap := (heap sb)[p := overwriteBlobs n (heap sb ! p)]\<rparr>))
               \<lparr>containerCache := Some (m(ceID n \<mapsto> p))\<rparr>"
    and d: "deref s' p = overwriteBlobs n (heap sb ! p)"
    using emit_usable [OF ub pb, of n] by blast
  have tr: "translateContainerEvents env (ContainerEventPtr (Some n)) s =
       (Inr (Some \<lparr>evContainerId = ceID n, evContainerName = Name (heap s ! p),
                    evImageId = ImageId (heap s ! p), evImageName = ImageName (heap s ! p),
                    evEvent = Some p\<rparr>), s')"
    unfolding translate_unfold translateStarted_unfold
    using st buf e nm by (simp add: sb_def [symmetric])
  have "containerStarted s' = (containerStarted s)(ceID n := None)"
    "containerCreated s' = containerCreated s" "cacheLookup s' (ceID n) = Some p"
    by (simp_all add: s' sb_def cacheLookup_def)
  with tr d hb show ?thesis by simp
qed



text \<open>
  With a cache that is not usable the write panics, and so does every call of the
  translator that reaches it: an emission, hence every \<open>Stopped\<close> notification, and the
  first \<open>Started\<close> notification of a pair.
\<close>

lemma emit_unusable:
  assumes "\<not> cacheUsable env s"
  shows "fst (emitContainerEvent env ce (Some p) s) = Inl AssignmentToEntryInNilMap"
  using assms by (simp add: emit_unfold save_unusable)

lemma stopped_unusable:
  assumes st: "ceState n = ContainerStopped" and u: "\<not> cacheUsable env s"
  shows "fst (translateContainerEvents env (ContainerEventPtr (Some n)) s) =
           Inl AssignmentToEntryInNilMap"
proof -
  have "\<not> cacheUsable env (s\<lparr>heap := h\<rparr>)" for h using u by simp
  then show ?thesis
    unfolding translate_unfold translateStopped_unfold
    using st by (simp add: emit_unusable)
qed

lemma started_first_unusable:
  assumes st: "ceState n = ContainerStarted"
    and buf: "containerStarted s (ceID n) = None"
    and u: "\<not> cacheUsable env s"
  shows "fst (translateContainerEvents env (ContainerEventPtr (Some n)) s) =
           Inl AssignmentToEntryInNilMap"
proof -
  have "\<not> cacheUsable env (s\<lparr>heap := h, containerStarted := m\<rparr>)" for h m using u by simp
  then show ?thesis
    unfolding translate_unfold translateStarted_unfold
    using st buf by (simp add: save_unusable passSave_def)
qed

section \<open>The cache lookup\<close>

text \<open>
  What \<open>getContainerEvent\<close> does on each path. It never returns an event: whenever it
  returns at all, the pointer of the result pair is nil. On a hit the state is the
  bootstrapped one; on a miss with a successful lookup the runtime is asked once and
  the entry, with the digest prefix of the image ID cut off, is stored.
\<close>

lemma getContainerEvent_nil:
  "fst (getContainerEvent env cid s) = Inr r \<Longrightarrow> fst r = None"
  by (auto simp: getContainerEvent_def Let_def split: option.splits sum.splits prod.splits)

lemma getContainerEvent_hit:
  assumes "cacheLookup (cacheOnceDo env s) cid = Some p"
  shows "getContainerEvent env cid s = (Inr (None, None), cacheOnceDo env s)"
  using assms by (simp add: getContainerEvent_def)

lemma getContainerEvent_miss:
  assumes u: "cacheUsable env s"
    and miss: "cacheLookup (cacheOnceDo env s) cid = None"
    and dc: "GetDockerConfig env cid = Inr dc"
  shows "\<exists>s' p. getContainerEvent env cid s = (Inr (None, None), s')
    \<and> calls s' = calls (cacheOnceDo env s) @ [GetDockerConfigCall cid]
    \<and> cacheLookup s' cid = Some p
    \<and> deref s' p = zeroContainerEvent\<lparr>Name := dcName dc,
          ImageId := trimImageIdPrefix (dcImage dc), ImageName := dcConfigImage dc\<rparr>"
proof -
  define s1 where "s1 = cacheOnceDo env s"
  define v where "v = zeroContainerEvent\<lparr>Name := dcName dc,
          ImageId := trimImageIdPrefix (dcImage dc), ImageName := dcConfigImage dc\<rparr>"
  define s3 where "s3 = s1\<lparr>calls := calls s1 @ [GetDockerConfigCall cid], heap := heap s1 @ [v]\<rparr>"
  have o: "containerCacheOnce s3" by (simp add: s3_def s1_def)
  then have c: "cacheOnceDo env s3 = s3" by (rule cacheOnceDo_done)
  obtain m where m: "containerCache s1 = Some m"
    using cacheOnceDo_usable [OF u] unfolding s1_def by blast
  have sv: "saveContainerEvent env cid (length (heap s1)) s3 =
      (Inr (), s3\<lparr>containerCache := Some (m(cid \<mapsto> length (heap s1)))\<rparr>)"
    using m by (simp add: saveContainerEvent_def c) (simp add: s3_def)
  have "getContainerEvent env cid s =
      (Inr (None, None), s3\<lparr>containerCache := Some (m(cid \<mapsto> length (heap s1)))\<rparr>)"
    using miss dc sv
    by (simp add: getContainerEvent_def Let_def alloc_def s1_def [symmetric] v_def [symmetric]
          s3_def [symmetric])
  moreover have "calls (s3\<lparr>containerCache := Some (m(cid \<mapsto> length (heap s1)))\<rparr>) =
      calls s1 @ [GetDockerConfigCall cid]"
    "cacheLookup (s3\<lparr>containerCache := Some (m(cid \<mapsto> length (heap s1)))\<rparr>) cid =
      Some (length (heap s1))"
    "deref (s3\<lparr>containerCache := Some (m(cid \<mapsto> length (heap s1)))\<rparr>) (length (heap s1)) = v"
    by (simp_all add: s3_def cacheLookup_def deref_def)
  ultimately show ?thesis unfolding s1_def v_def by blast
qed

section \<open>Events that wait in the Started buffer\<close>

text \<open>
  No assignment of the package changes the phase tag, the name or the image fields of
  an event that already exists: these are set on fresh events only, and the heap only
  grows. So every event that waits in the \<open>Started\<close> buffer stays as
  \<open>newContainerRunning\<close> made it in these four fields, whatever calls come in between,
  panicking calls included.
\<close>

lemma sameIdentity_refl [simp]: "sameIdentity e e"
  by (simp add: sameIdentity_def)

lemma sameIdentity_trans: "sameIdentity a b \<Longrightarrow> sameIdentity b c \<Longrightarrow> sameIdentity a c"
  by (simp add: sameIdentity_def)

lemma sameIdentity_overwriteBlobs [simp]: "sameIdentity e (overwriteBlobs ce e)"
  by (simp add: sameIdentity_def overwriteBlobs_def)

lemma sameIdentity_startedFields [simp]: "sameIdentity e (startedFields ce e)"
  by (simp add: sameIdentity_def startedFields_def)

lemma sameIdentity_longerBlob [simp]: "sameIdentity e (longerBlob ce e)"
  by (simp add: sameIdentity_def longerBlob_def)

lemma bareRunning_same: "bareRunning e \<Longrightarrow> sameIdentity e e' \<Longrightarrow> bareRunning e'"
  by (simp add: bareRunning_def sameIdentity_def)

lemma bareRunning_startedFields: "bareRunning e \<Longrightarrow> bareRunning (startedFields ce e)"
  by (simp add: bareRunning_def startedFields_def)

lemma bareRunning_new:
  "bareRunning (startedFields ce (zeroContainerEvent\<lparr>Type := CONTAINER_EVENT_TYPE_RUNNING\<rparr>))"
  by (simp add: bareRunning_def startedFields_def zeroContainerEvent_def)

lemma frame_refl [simp]: "frame s s"
  by (simp add: frame_def)

lemma frame_trans: "frame s s' \<Longrightarrow> frame s' s'' \<Longrightarrow> frame s s''"
  unfolding frame_def
  by (metis (no_types, lifting) le_trans less_le_trans sameIdentity_trans)

lemma frame_append:
  "containerStarted s' = containerStarted s \<Longrightarrow> heap s' = heap s @ cells \<Longrightarrow> frame s s'"
  by (simp add: frame_def nth_append)

lemma frame_update:
  assumes "containerStarted s' = containerStarted s" and "heap s' = (heap s)[p := v]"
    and "p < length (heap s) \<Longrightarrow> sameIdentity (heap s ! p) v"
  shows "frame s s'"
proof (cases "p < length (heap s)")
  case True
  with assms show ?thesis by (simp add: frame_def nth_list_update)
next
  case False
  with assms show ?thesis by (simp add: frame_def list_update_beyond)
qed

lemma frame_cacheOnceDo: "frame s (cacheOnceDo env s)"
  using cacheOnceDo_heap [of env s] by (auto intro: frame_append)

lemma frame_save: "frame s (snd (saveContainerEvent env cid p s))"
  using frame_cacheOnceDo [of s env] by (simp add: frame_def save_heap save_started)

lemma snd_passSave [simp]: "snd (passSave x) = snd x"
  by (simp add: passSave_def split: prod.split sum.split)

lemma fst_passSave: "fst (passSave x) \<noteq> Inr (Some p)"
  by (simp add: passSave_def split: prod.split sum.split)

lemma emit_snd:
  "snd (emitContainerEvent env ce (Some p) s) =
     snd (saveContainerEvent env (ceID ce) p
            (s\<lparr>heap := (heap s)[p := overwriteBlobs ce (heap s ! p)]\<rparr>))"
  by (simp add: emit_unfold split: prod.split sum.split)

lemma frame_emit: "frame s (snd (emitContainerEvent env ce ece s))"
proof (cases ece)
  case None
  then show ?thesis by (simp add: emitContainerEvent_def)
next
  case (Some p)
  have "frame s (s\<lparr>heap := (heap s)[p := overwriteBlobs ce (heap s ! p)]\<rparr>)"
    by (rule frame_update [where p = p and v = "overwriteBlobs ce (heap s ! p)"]) simp_all
  then show ?thesis unfolding Some emit_snd by (rule frame_trans) (rule frame_save)
qed

lemma frame_translateCreated: "frame s (snd (translateCreated env ce s))"
proof (cases "containerCreated s (ceID ce)")
  case None
  define sa where "sa = s\<lparr>heap := heap s @ [\<lparr>Type = CONTAINER_EVENT_TYPE_CREATED, Name = ceName ce,
                                  ImageId = ceImageID ce, ImageName = ceImage ce, HostPid = 0,
                                  DockerConfigJson = ceDockerConfig ce, OciConfigJson = [],
                                  ExitCode = 0\<rparr>],
               containerCreated := (containerCreated s)(ceID ce \<mapsto> length (heap s))\<rparr>"
  have "frame s sa" by (rule frame_append) (simp_all add: sa_def)
  then have "frame s (snd (saveContainerEvent env (ceID ce) (length (heap s)) sa))"
    by (rule frame_trans) (rule frame_save)
  then show ?thesis by (simp add: translateCreated_unfold None sa_def)
next
  case (Some p)
  have "frame s (s\<lparr>heap := (heap s)[p := longerBlob ce (heap s ! p)],
             containerCreated := (containerCreated s)(ceID ce := None)\<rparr>)"
    by (rule frame_update [where p = p and v = "longerBlob ce (heap s ! p)"]) simp_all
  then show ?thesis by (simp add: translateCreated_unfold Some)
qed

lemma frame_translateStopped: "frame s (snd (translateStopped ce s))"
  unfolding translateStopped_unfold by (rule frame_append) simp_all

lemma frame_translateRemoved: "frame s (snd (translateRemoved ce s))"
  unfolding translateRemoved_unfold by (rule frame_append) simp_all

lemma frame_getContainerEvent: "frame s (snd (getContainerEvent env cid s))"
proof -
  define s1 where "s1 = cacheOnceDo env s"
  have a: "frame s s1" unfolding s1_def by (rule frame_cacheOnceDo)
  have b: "frame s1 (s1\<lparr>calls := cs\<rparr>)" for cs by (simp add: frame_def)
  have c: "frame s1 (snd (saveContainerEvent env cid p (s1\<lparr>calls := cs, heap := heap s1 @ [v]\<rparr>)))"
    for cs p v
  proof -
    have "frame s1 (s1\<lparr>calls := cs, heap := heap s1 @ [v]\<rparr>)"
      by (rule frame_append) simp_all
    then show ?thesis by (rule frame_trans) (rule frame_save)
  qed
  have "frame s1 (snd (getContainerEvent env cid s))"
    using b c
    by (simp add: getContainerEvent_def Let_def alloc_def s1_def [symmetric]
          split: option.split sum.split prod.split)
       (metis snd_conv)
  with a show ?thesis by (rule frame_trans)
qed

lemma startedPending_frame:
  assumes "startedPending s" and "frame s s'"
  shows "startedPending s'"
  using assms unfolding startedPending_def frame_def
  by (metis bareRunning_same less_le_trans)

lemma startedPending_translateStarted:
  assumes inv: "startedPending s"
  shows "startedPending (snd (translateStarted env ce s)) \<and>
         (\<forall>p. fst (translateStarted env ce s) = Inr (Some p) \<longrightarrow>
            p < length (heap (snd (translateStarted env ce s))) \<and>
            bareRunning (heap (snd (translateStarted env ce s)) ! p))"
proof (cases "containerStarted s (ceID ce)")
  case None
  define v where "v = startedFields ce (zeroContainerEvent\<lparr>Type := CONTAINER_EVENT_TYPE_RUNNING\<rparr>)"
  define sa where "sa = s\<lparr>heap := heap s @ [v],
      containerStarted := (containerStarted s)(ceID ce \<mapsto> length (heap s))\<rparr>"
  have eq: "translateStarted env ce s =
      passSave (saveContainerEvent env (ceID ce) (length (heap s)) sa)"
    by (simp add: translateStarted_unfold None sa_def v_def)
  have "startedPending sa"
    unfolding startedPending_def
  proof (intro allI impI)
    fix cid p
    assume a: "containerStarted sa cid = Some p"
    show "p < length (heap sa) \<and> bareRunning (heap sa ! p)"
    proof (cases "cid = ceID ce")
      case True
      with a have "p = length (heap s)" by (simp add: sa_def)
      then show ?thesis using bareRunning_new [of ce] by (simp add: sa_def v_def)
    next
      case False
      with a have "containerStarted s cid = Some p" by (simp add: sa_def)
      with inv have "p < length (heap s)" "bareRunning (heap s ! p)"
        unfolding startedPending_def by blast+
      then show ?thesis by (simp add: sa_def nth_append)
    qed
  qed
  then have "startedPending (snd (saveContainerEvent env (ceID ce) (length (heap s)) sa))"
    by (rule startedPending_frame) (rule frame_save)
  then show ?thesis unfolding eq by (simp add: fst_passSave)
next
  case (Some q)
  define sb where "sb = s\<lparr>heap := (heap s)[q := startedFields ce (heap s ! q)],
             containerStarted := (containerStarted s)(ceID ce := None)\<rparr>"
  have eq: "translateStarted env ce s = (Inr (Some q), sb)"
    by (simp add: translateStarted_unfold Some sb_def)
  from inv Some have q: "q < length (heap s)" "bareRunning (heap s ! q)"
    unfolding startedPending_def by blast+
  have hq: "q < length (heap sb)" "bareRunning (heap sb ! q)"
    using q by (simp_all add: sb_def bareRunning_startedFields)
  have "startedPending sb"
    unfolding startedPending_def
  proof (intro allI impI)
    fix cid p
    assume a: "containerStarted sb cid = Some p"
    then have "containerStarted s cid = Some p"
      by (cases "cid = ceID ce") (simp_all add: sb_def)
    with inv have p: "p < length (heap s)" "bareRunning (heap s ! p)"
      unfolding startedPending_def by blast+
    show "p < length (heap sb) \<and> bareRunning (heap sb ! p)"
      using p q by (cases "p = q") (simp_all add: sb_def bareRunning_startedFields)
  qed
  with hq show ?thesis unfolding eq by simp
qed

lemma startedPending_emit:
  assumes "startedPending (snd ph)"
  shows "startedPending (snd (case ph of (Inl pn, s1) \<Rightarrow> (Inl pn, s1)
                               | (Inr ece, s1) \<Rightarrow> emitContainerEvent env ce ece s1))"
proof (cases ph)
  case (Pair r s1)
  show ?thesis
  proof (cases r)
    case (Inl pn)
    with Pair assms show ?thesis by simp
  next
    case (Inr ece)
    have "startedPending (snd (emitContainerEvent env ce ece s1))"
      using assms Pair by (auto intro: startedPending_frame frame_emit)
    with Pair Inr show ?thesis by simp
  qed
qed

lemma startedPending_translate:
  assumes inv: "startedPending s"
  shows "startedPending (snd (translateContainerEvents env e s))"
proof (cases e)
  case NilInterface
  with inv show ?thesis by (simp add: translateContainerEvents_def)
next
  case OtherValue
  with inv show ?thesis by (simp add: translateContainerEvents_def)
next
  case (ContainerEventPtr ptr)
  show ?thesis
  proof (cases ptr)
    case None
    with inv ContainerEventPtr show ?thesis by (simp add: translateContainerEvents_def)
  next
    case (Some ce)
    have "startedPending (snd (case ceState ce of
              ContainerCreated \<Rightarrow> translateCreated env ce s
            | ContainerStarted \<Rightarrow> translateStarted env ce s
            | ContainerStopped \<Rightarrow> translateStopped ce s
            | ContainerRemoved \<Rightarrow> translateRemoved ce s
            | ContainerStateOther v \<Rightarrow> (Inl InvalidValueForContainerState, s)))"
      using inv startedPending_translateStarted [OF inv, of env ce]
      by (cases "ceState ce")
         (auto intro: startedPending_frame frame_translateCreated frame_translateStopped
            frame_translateRemoved)
    then show ?thesis
      unfolding ContainerEventPtr Some translate_unfold by (rule startedPending_emit)
  qed
qed

lemma startedPending_step: "startedPending s \<Longrightarrow> startedPending (step env op s)"
  by (cases op)
     (auto simp: step_def intro: startedPending_translate startedPending_frame
        frame_getContainerEvent)

lemma startedPending_init: "startedPending init_state"
  by (simp add: startedPending_def init_state_def)

lemma startedPending_run: "startedPending s \<Longrightarrow> startedPending (run ops s)"
  by (induction ops arbitrary: s) (simp_all add: startedPending_step)

lemma emit_result:
  assumes e: "emitContainerEvent env ce (Some p) s = (Inr (Some ev), s')"
    and p: "p < length (heap s)"
  shows "evEvent ev = Some p \<and> evContainerName ev = Name (deref s' p) \<and>
         evImageId ev = ImageId (deref s' p) \<and> evImageName ev = ImageName (deref s' p) \<and>
         sameIdentity (heap s ! p) (deref s' p)"
proof -
  have "frame s (snd (emitContainerEvent env ce (Some p) s))" by (rule frame_emit)
  then have "frame s s'" unfolding e by simp
  with p have 1: "sameIdentity (heap s ! p) (deref s' p)"
    by (simp add: frame_def deref_def)
  have 2: "evEvent ev = Some p \<and> evContainerName ev = Name (deref s' p) \<and>
         evImageId ev = ImageId (deref s' p) \<and> evImageName ev = ImageName (deref s' p)"
    using e unfolding emit_unfold by (auto split: prod.splits sum.splits)
  from 1 2 show ?thesis by simp
qed

section \<open>The claims\<close>

text \<open>
  In the theorems below a cache is usable (\<open>cacheUsable\<close>) when a write into it does
  not panic: its one-time bootstrap has succeeded, or has not run yet and will
  succeed. Otherwise the write panics, which is what claims C5, C6 and C7 run into.
\<close>

subsection \<open>C1: two Created notifications\<close>




subsection \<open>C2: a Removed notification\<close>

text \<open>
  Claim C2, as stated, fails. Before the \<open>Removed\<close> notification for \<open>c2\<close> the cache,
  bootstrapped from an empty enumeration, has no entry for \<open>c2\<close>; after it the entry
  points to the emitted event, and that event carries the blob A of the notification
  next to its phase tag.
\<close>

theorem removed_writes_cache_counterexample:
  "cacheLookup (cacheOnceDo demo_runtime init_state) ''c2'' = None
   \<and> fst (translateContainerEvents demo_runtime (ContainerEventPtr (Some removed_c2)) init_state)
       = Inr (Some \<lparr>evContainerId = ''c2'', evContainerName = [], evImageId = [],
                     evImageName = [], evEvent = Some 0\<rparr>)
   \<and> cacheLookup (snd (translateContainerEvents demo_runtime
          (ContainerEventPtr (Some removed_c2)) init_state)) ''c2'' = Some 0
   \<and> deref (snd (translateContainerEvents demo_runtime
          (ContainerEventPtr (Some removed_c2)) init_state)) 0
       = \<lparr>Type = CONTAINER_EVENT_TYPE_DESTROYED, Name = [], ImageId = [], ImageName = [],
          HostPid = 0, DockerConfigJson = ''{docker}'', OciConfigJson = [], ExitCode = 0\<rparr>"
  by code_simp

text \<open>
  Claim C2, amended. A \<open>Removed\<close> notification, with a usable cache, yields exactly one
  envelope. Its payload has phase \<open>Destroyed\<close>, no name, no image fields, host PID and
  exit code zero, and the two blobs of the notification (empty when the notification
  has none); the envelope has no name and no image fields. The payload is written to
  the cache under the container ID. The merge buffers are untouched, and once the
  cache has been bootstrapped the entries of all other IDs are untouched.
\<close>

theorem removed_emits_destroyed:
  assumes st: "ceState n = ContainerRemoved" and u: "cacheUsable env s"
  shows "\<exists>ev p s'.
      translateContainerEvents env (ContainerEventPtr (Some n)) s = (Inr (Some ev), s')
    \<and> evEvent ev = Some p
    \<and> deref s' p =
        \<lparr>Type = CONTAINER_EVENT_TYPE_DESTROYED, Name = [], ImageId = [], ImageName = [],
         HostPid = 0, DockerConfigJson = ceDockerConfig n, OciConfigJson = ceOciConfig n,
         ExitCode = 0\<rparr>
    \<and> evContainerName ev = [] \<and> evImageId ev = [] \<and> evImageName ev = []
    \<and> cacheLookup s' (ceID n) = Some p
    \<and> containerCreated s' = containerCreated s
    \<and> containerStarted s' = containerStarted s
    \<and> (containerCacheOnce s \<longrightarrow>
         (\<forall>cid. cid \<noteq> ceID n \<longrightarrow> cacheLookup s' cid = cacheLookup s cid))"
proof -
  define v where "v = zeroContainerEvent\<lparr>Type := CONTAINER_EVENT_TYPE_DESTROYED\<rparr>"
  obtain s' where
    e: "emitContainerEvent env n (Some (length (heap s))) (s\<lparr>heap := heap s @ [v]\<rparr>) =
       (Inr (Some \<lparr>evContainerId = ceID n, evContainerName = Name v,
                    evImageId = ImageId v, evImageName = ImageName v,
                    evEvent = Some (length (heap s))\<rparr>), s')"
    and d: "deref s' (length (heap s)) = overwriteBlobs n v"
    and b: "containerCreated s' = containerCreated s" "containerStarted s' = containerStarted s"
      "cacheLookup s' (ceID n) = Some (length (heap s))"
    and o: "containerCacheOnce s \<longrightarrow>
         (\<forall>cid. cid \<noteq> ceID n \<longrightarrow> cacheLookup s' cid = cacheLookup s cid)"
    using fresh_emit [OF u, of n v] by blast
  have nm: "Name v = []" "ImageId v = []" "ImageName v = []"
    by (simp_all add: v_def zeroContainerEvent_def)
  have "translateContainerEvents env (ContainerEventPtr (Some n)) s =
       (Inr (Some \<lparr>evContainerId = ceID n, evContainerName = [],
                    evImageId = [], evImageName = [],
                    evEvent = Some (length (heap s))\<rparr>), s')"
    unfolding translate_unfold translateRemoved_unfold using st e nm
    by (simp add: v_def [symmetric])
  moreover have "deref s' (length (heap s)) =
        \<lparr>Type = CONTAINER_EVENT_TYPE_DESTROYED, Name = [], ImageId = [], ImageName = [],
         HostPid = 0, DockerConfigJson = ceDockerConfig n, OciConfigJson = ceOciConfig n,
         ExitCode = 0\<rparr>"
    unfolding d by (simp add: overwriteBlobs_def v_def zeroContainerEvent_def)
  ultimately show ?thesis using b o by simp
qed

theorem removed_emits_destroyed_witness:
  "ceState removed_c2 = ContainerRemoved \<and>
   cacheUsable demo_runtime (cacheOnceDo demo_runtime init_state) \<and>
   containerCacheOnce (cacheOnceDo demo_runtime init_state) \<and>
   (\<exists>ev p s'.
      translateContainerEvents demo_runtime (ContainerEventPtr (Some removed_c2))
        (cacheOnceDo demo_runtime init_state) = (Inr (Some ev), s')
    \<and> evEvent ev = Some p
    \<and> deref s' p =
        \<lparr>Type = CONTAINER_EVENT_TYPE_DESTROYED, Name = [], ImageId = [], ImageName = [],
         HostPid = 0, DockerConfigJson = ''{docker}'', OciConfigJson = [], ExitCode = 0\<rparr>
    \<and> evContainerName ev = [] \<and> evImageId ev = [] \<and> evImageName ev = []
    \<and> cacheLookup s' ''c2'' = Some p
    \<and> (\<forall>cid. cid \<noteq> ''c2'' \<longrightarrow>
          cacheLookup s' cid = cacheLookup (cacheOnceDo demo_runtime init_state) cid))"
proof -
  have 1: "ceState removed_c2 = ContainerRemoved" by (simp add: removed_c2_def)
  have 2: "cacheUsable demo_runtime (cacheOnceDo demo_runtime init_state)"
    by (simp add: cacheUsable_def cacheOnceDo_def newContainerCache_def demo_runtime_def
          init_state_def)
  have 3: "containerCacheOnce (cacheOnceDo demo_runtime init_state)" by simp
  have v: "ceDockerConfig removed_c2 = ''{docker}''" "ceOciConfig removed_c2 = []"
    "ceID removed_c2 = ''c2''"
    by (simp_all add: removed_c2_def)
  show ?thesis
    using 1 2 3 removed_emits_destroyed [OF 1 2] unfolding v by auto
qed

subsection \<open>C3: the round trip through the cache\<close>

text \<open>
  Claim C3, evaluated. After the two \<open>Created\<close> notifications for \<open>c1\<close> the translator
  has emitted the event at address 0 and the cache maps \<open>c1\<close> to that address, but
  \<open>getContainerEvent\<close> for \<open>c1\<close> returns the nil pointer with a nil error.
\<close>

theorem created_roundtrip_returns_nil:
  "fst (translateContainerEvents demo_runtime (ContainerEventPtr (Some created_cfg))
        (snd (translateContainerEvents demo_runtime (ContainerEventPtr (Some created_web))
                init_state)))
     = Inr (Some \<lparr>evContainerId = ''c1'', evContainerName = ''web'', evImageId = [],
                   evImageName = [], evEvent = Some 0\<rparr>)
   \<and> cacheLookup (snd (translateContainerEvents demo_runtime (ContainerEventPtr (Some created_cfg))
        (snd (translateContainerEvents demo_runtime (ContainerEventPtr (Some created_web))
                init_state)))) ''c1'' = Some 0
   \<and> fst (getContainerEvent demo_runtime ''c1''
        (snd (translateContainerEvents demo_runtime (ContainerEventPtr (Some created_cfg))
          (snd (translateContainerEvents demo_runtime (ContainerEventPtr (Some created_web))
                init_state))))) = Inr (None, None)"
  by code_simp

subsection \<open>C4: the miss path of the lookup\<close>

text \<open>
  Claim C4, evaluated. The cache is empty after a bootstrap that found no container, and
  the runtime knows \<open>c1\<close> with image ID \<open>sha256:0a1b\<close>. The first lookup asks the runtime
  once and stores an entry with image ID \<open>0a1b\<close>, and the second lookup asks nothing
  more; but both return the nil pointer, not the entry.
\<close>

theorem cache_miss_returns_nil:
  "fst (getContainerEvent lookup_runtime ''c1'' init_state) = Inr (None, None)
   \<and> cacheLookup (snd (getContainerEvent lookup_runtime ''c1'' init_state)) ''c1'' = Some 0
   \<and> deref (snd (getContainerEvent lookup_runtime ''c1'' init_state)) 0 =
       \<lparr>Type = CONTAINER_EVENT_TYPE_UNKNOWN, Name = ''web'', ImageId = ''0a1b'',
        ImageName = ''nginx'', HostPid = 0, DockerConfigJson = [], OciConfigJson = [],
        ExitCode = 0\<rparr>
   \<and> calls (snd (getContainerEvent lookup_runtime ''c1'' init_state)) =
       [GetDockerConfigListCall, GetDockerConfigCall ''c1'']
   \<and> fst (getContainerEvent lookup_runtime ''c1''
            (snd (getContainerEvent lookup_runtime ''c1'' init_state))) = Inr (None, None)
   \<and> calls (snd (getContainerEvent lookup_runtime ''c1''
            (snd (getContainerEvent lookup_runtime ''c1'' init_state)))) =
       [GetDockerConfigListCall, GetDockerConfigCall ''c1'']"
  by code_simp

subsection \<open>C5: two Started notifications\<close>

text \<open>
  What the code does while the cache is usable. Two \<open>Started\<close> notifications for one
  container ID, fed in sequence to a translator that holds no pending \<open>Started\<close> entry
  for that ID: the first returns nothing, the second returns one envelope. Its payload has phase \<open>Running\<close>; its host
  PID is the \<open>int32\<close> conversion of the last non-zero PID of the two (zero when both
  are zero); its blobs A and B are those of the second notification where these are
  not empty, else those of the first. The runtime may behave differently at the two
  calls. The cache is usable at the first call.
\<close>

lemma started_pair_emits_running:
  assumes st1: "ceState n1 = ContainerStarted" and st2: "ceState n2 = ContainerStarted"
    and same: "ceID n2 = ceID n1"
    and buf: "containerStarted s (ceID n1) = None"
    and u: "cacheUsable env1 s"
  shows "\<exists>s1 ev p s2.
      translateContainerEvents env1 (ContainerEventPtr (Some n1)) s = (Inr None, s1)
    \<and> translateContainerEvents env2 (ContainerEventPtr (Some n2)) s1 = (Inr (Some ev), s2)
    \<and> evEvent ev = Some p
    \<and> Type (deref s2 p) = CONTAINER_EVENT_TYPE_RUNNING
    \<and> HostPid (deref s2 p) =
        (if cePid n2 \<noteq> 0 then to_int32 (cePid n2)
         else if cePid n1 \<noteq> 0 then to_int32 (cePid n1) else 0)
    \<and> DockerConfigJson (deref s2 p) =
        (if ceDockerConfig n2 \<noteq> [] then ceDockerConfig n2 else ceDockerConfig n1)
    \<and> OciConfigJson (deref s2 p) =
        (if ceOciConfig n2 \<noteq> [] then ceOciConfig n2 else ceOciConfig n1)
    \<and> containerStarted s2 (ceID n1) = None"
proof -
  define p where "p = length (heap s)"
  define v where "v = startedFields n1 (zeroContainerEvent\<lparr>Type := CONTAINER_EVENT_TYPE_RUNNING\<rparr>)"
  obtain s1 where
    t1: "translateContainerEvents env1 (ContainerEventPtr (Some n1)) s = (Inr None, s1)"
    and b1: "containerStarted s1 = (containerStarted s)(ceID n1 \<mapsto> p)"
    and l1: "p < length (heap s1)" and h1: "heap s1 ! p = v"
    and c1: "containerCacheOnce s1" "containerCache s1 \<noteq> None"
    using started_first [OF st1 buf u] unfolding p_def v_def by blast
  have u1: "cacheUsable env2 s1" using c1 by (simp add: cacheUsable_def)
  have buf1: "containerStarted s1 (ceID n2) = Some p" using b1 same by simp
  obtain s2 where
    t2: "translateContainerEvents env2 (ContainerEventPtr (Some n2)) s1 =
       (Inr (Some \<lparr>evContainerId = ceID n2, evContainerName = Name (heap s1 ! p),
                    evImageId = ImageId (heap s1 ! p), evImageName = ImageName (heap s1 ! p),
                    evEvent = Some p\<rparr>), s2)"
    and d2: "deref s2 p = overwriteBlobs n2 (startedFields n2 (heap s1 ! p))"
    and b2: "containerStarted s2 = (containerStarted s1)(ceID n2 := None)"
    using started_second [OF st2 buf1 l1 u1] by blast
  have f: "Type (deref s2 p) = CONTAINER_EVENT_TYPE_RUNNING"
    "HostPid (deref s2 p) =
        (if cePid n2 \<noteq> 0 then to_int32 (cePid n2)
         else if cePid n1 \<noteq> 0 then to_int32 (cePid n1) else 0)"
    "DockerConfigJson (deref s2 p) =
        (if ceDockerConfig n2 \<noteq> [] then ceDockerConfig n2 else ceDockerConfig n1)"
    "OciConfigJson (deref s2 p) =
        (if ceOciConfig n2 \<noteq> [] then ceOciConfig n2 else ceOciConfig n1)"
    unfolding d2 h1 v_def
    by (simp_all add: overwriteBlobs_def startedFields_def zeroContainerEvent_def)
  have "containerStarted s2 (ceID n1) = None" using b2 same by simp
  with t1 t2 f show ?thesis by simp
qed

lemma started_pair_emits_running_witness:
  "ceState started_docker = ContainerStarted \<and> ceState started_oci = ContainerStarted \<and>
   ceID started_oci = ceID started_docker \<and>
   containerStarted init_state (ceID started_docker) = None \<and>
   cacheUsable demo_runtime init_state \<and>
   (\<exists>s1 ev p s2.
      translateContainerEvents demo_runtime (ContainerEventPtr (Some started_docker)) init_state
        = (Inr None, s1)
    \<and> translateContainerEvents demo_runtime (ContainerEventPtr (Some started_oci)) s1
        = (Inr (Some ev), s2)
    \<and> evEvent ev = Some p
    \<and> Type (deref s2 p) = CONTAINER_EVENT_TYPE_RUNNING
    \<and> HostPid (deref s2 p) = 4242
    \<and> DockerConfigJson (deref s2 p) = ''{docker}''
    \<and> OciConfigJson (deref s2 p) = ''{oci}''
    \<and> containerStarted s2 ''c1'' = None)"
proof -
  have 1: "ceState started_docker = ContainerStarted" by (simp add: started_docker_def)
  have 2: "ceState started_oci = ContainerStarted" by (simp add: started_oci_def)
  have 3: "ceID started_oci = ceID started_docker"
    by (simp add: started_docker_def started_oci_def)
  have 4: "containerStarted init_state (ceID started_docker) = None"
    by (simp add: init_state_def)
  have 5: "cacheUsable demo_runtime init_state"
    by (simp add: cacheUsable_def demo_runtime_def init_state_def)
  have v: "cePid started_oci = 0" "cePid started_docker = 4242"
    "ceDockerConfig started_oci = []" "ceDockerConfig started_docker = ''{docker}''"
    "ceOciConfig started_oci = ''{oci}''" "ceID started_docker = ''c1''"
    by (simp_all add: started_docker_def started_oci_def)
  have w: "to_int32 4242 = 4242" by (simp add: to_int32_def)
  show ?thesis
    using 1 2 3 4 5 started_pair_emits_running [OF 1 2 3 4 5, of demo_runtime]
    unfolding v w by simp
qed

text \<open>
  Claim C5, evaluated. Where the enumeration of the containers has failed, two
  \<open>Started\<close> notifications do not yield an event. With the failing enumeration at the
  first cache access, the first \<open>Started\<close> notification for \<open>c1\<close>, with no entry
  pending for \<open>c1\<close>, panics at the write into the nil map instead of returning
  nothing, and the cache stays nil. The same happens after a lookup that ran the failed
  bootstrap and returned its error normally, even though the runtime works again when
  the notification arrives.
\<close>

theorem started_pair_panics_on_failed_bootstrap:
  "containerStarted init_state ''c1'' = None
   \<and> fst (translateContainerEvents broken_runtime (ContainerEventPtr (Some started_docker))
          init_state) = Inl AssignmentToEntryInNilMap
   \<and> containerCache (snd (translateContainerEvents broken_runtime
          (ContainerEventPtr (Some started_docker)) init_state)) = None
   \<and> fst (getContainerEvent dead_runtime ''c0'' init_state) =
        Inr (None, Some ''no such container'')
   \<and> containerStarted (snd (getContainerEvent dead_runtime ''c0'' init_state)) ''c1'' = None
   \<and> fst (translateContainerEvents demo_runtime (ContainerEventPtr (Some started_docker))
          (snd (getContainerEvent dead_runtime ''c0'' init_state)))
        = Inl AssignmentToEntryInNilMap"
  by code_simp

subsection \<open>C6: a failed bootstrap\<close>

text \<open>
  Claim C6, evaluated. The enumeration of the containers fails at the one-time bootstrap,
  which leaves the map variable nil. A lookup of \<open>c1\<close> that the runtime answers then
  panics at the write of the new entry, and the cache is still nil afterwards; a
  \<open>Stopped\<close> notification panics at the same write; and after the failed bootstrap a
  notification panics even when the runtime works again, since the bootstrap is not
  run a second time.
\<close>

theorem bootstrap_failure_panics:
  "fst (getContainerEvent broken_runtime ''c1'' init_state) = Inl AssignmentToEntryInNilMap
   \<and> containerCache (snd (getContainerEvent broken_runtime ''c1'' init_state)) = None
   \<and> fst (translateContainerEvents broken_runtime (ContainerEventPtr (Some stopped_c1)) init_state)
       = Inl AssignmentToEntryInNilMap
   \<and> fst (translateContainerEvents demo_runtime (ContainerEventPtr (Some stopped_c1))
        (snd (getContainerEvent broken_runtime ''c1'' init_state)))
       = Inl AssignmentToEntryInNilMap"
  by code_simp

subsection \<open>C7: a Stopped notification\<close>

text \<open>
  What the code does while the cache is usable. A single \<open>Stopped\<close> notification
  yields exactly one emitted event: the translator returns an envelope whatever the
  merge buffers hold, and leaves both buffers as they were (nothing is buffered or
  deduplicated). The payload has phase \<open>Exited\<close> and the exit code of the notification,
  unchanged.
\<close>

lemma stopped_emits_exited:
  assumes st: "ceState n = ContainerStopped" and u: "cacheUsable env s"
  shows "\<exists>ev p s'.
      translateContainerEvents env (ContainerEventPtr (Some n)) s = (Inr (Some ev), s')
    \<and> evEvent ev = Some p
    \<and> Type (deref s' p) = CONTAINER_EVENT_TYPE_EXITED
    \<and> ExitCode (deref s' p) = ceExitCode n
    \<and> containerCreated s' = containerCreated s
    \<and> containerStarted s' = containerStarted s"
proof -
  obtain s' where
    e: "emitContainerEvent env n (Some (length (heap s))) (s\<lparr>heap := heap s @ [stoppedEvent n]\<rparr>) =
       (Inr (Some \<lparr>evContainerId = ceID n, evContainerName = Name (stoppedEvent n),
                    evImageId = ImageId (stoppedEvent n), evImageName = ImageName (stoppedEvent n),
                    evEvent = Some (length (heap s))\<rparr>), s')"
    and d: "deref s' (length (heap s)) = overwriteBlobs n (stoppedEvent n)"
    and b: "containerCreated s' = containerCreated s" "containerStarted s' = containerStarted s"
    using fresh_emit [OF u, of n "stoppedEvent n"] by blast
  have "translateContainerEvents env (ContainerEventPtr (Some n)) s =
       (Inr (Some \<lparr>evContainerId = ceID n, evContainerName = Name (stoppedEvent n),
                    evImageId = ImageId (stoppedEvent n), evImageName = ImageName (stoppedEvent n),
                    evEvent = Some (length (heap s))\<rparr>), s')"
    unfolding translate_unfold translateStopped_unfold using st e by simp
  moreover have "Type (deref s' (length (heap s))) = CONTAINER_EVENT_TYPE_EXITED"
    "ExitCode (deref s' (length (heap s))) = ceExitCode n"
    unfolding d by (simp_all add: overwriteBlobs_def stoppedEvent_def)
  ultimately show ?thesis using b by simp
qed

lemma stopped_emits_exited_witness:
  "ceState stopped_c1 = ContainerStopped \<and> cacheUsable demo_runtime init_state \<and>
   (\<exists>ev p s'.
      translateContainerEvents demo_runtime (ContainerEventPtr (Some stopped_c1)) init_state
        = (Inr (Some ev), s')
    \<and> evEvent ev = Some p
    \<and> Type (deref s' p) = CONTAINER_EVENT_TYPE_EXITED
    \<and> ExitCode (deref s' p) = 137
    \<and> containerCreated s' = containerCreated init_state
    \<and> containerStarted s' = containerStarted init_state)"
proof -
  have 1: "ceState stopped_c1 = ContainerStopped" by (simp add: stopped_c1_def)
  have 2: "cacheUsable demo_runtime init_state"
    by (simp add: cacheUsable_def demo_runtime_def init_state_def)
  have 3: "ceExitCode stopped_c1 = 137" by (simp add: stopped_c1_def)
  show ?thesis using 1 2 stopped_emits_exited [OF 1 2] unfolding 3 by simp
qed

text \<open>
  Claim C7, evaluated. Where the enumeration of the containers has failed, a
  \<open>Stopped\<close> notification does not yield an event. With the enumeration failing at the
  first cache access, the notification for \<open>c1\<close> panics at the write into the nil map
  and the cache stays nil. The same happens after a lookup that ran the failed
  bootstrap and returned its error normally, even though the runtime works again when
  the notification arrives.
\<close>

theorem stopped_panics_on_failed_bootstrap:
  "fst (translateContainerEvents dead_runtime (ContainerEventPtr (Some stopped_c1)) init_state)
       = Inl AssignmentToEntryInNilMap
   \<and> containerCache (snd (translateContainerEvents dead_runtime
          (ContainerEventPtr (Some stopped_c1)) init_state)) = None
   \<and> fst (getContainerEvent dead_runtime ''c0'' init_state) =
        Inr (None, Some ''no such container'')
   \<and> fst (translateContainerEvents demo_runtime (ContainerEventPtr (Some stopped_c1))
          (snd (getContainerEvent dead_runtime ''c0'' init_state)))
        = Inl AssignmentToEntryInNilMap"
  by code_simp

subsection \<open>C8: an unknown phase tag\<close>

text \<open>
  Claim C8. A notification whose phase tag is none of \<open>Created\<close>, \<open>Started\<close>,
  \<open>Stopped\<close>, \<open>Removed\<close> makes the translator panic with "Invalid value for
  ContainerState"; it returns no result, and the state is as it was before the call.
\<close>

theorem invalid_state_panics:
  assumes "ceState n \<notin> {ContainerCreated, ContainerStarted, ContainerStopped, ContainerRemoved}"
  shows "translateContainerEvents env (ContainerEventPtr (Some n)) s =
           (Inl InvalidValueForContainerState, s)"
  using assms by (cases "ceState n") (simp_all add: translateContainerEvents_def)

theorem invalid_state_panics_witness:
  "ceState invalid_c1 \<notin> {ContainerCreated, ContainerStarted, ContainerStopped, ContainerRemoved} \<and>
   translateContainerEvents demo_runtime (ContainerEventPtr (Some invalid_c1)) init_state =
     (Inl InvalidValueForContainerState, init_state)"
proof -
  have 1: "ceState invalid_c1 \<notin> {ContainerCreated, ContainerStarted, ContainerStopped, ContainerRemoved}"
    by (simp add: invalid_c1_def)
  show ?thesis using 1 invalid_state_panics [OF 1] by simp
qed

subsection \<open>C9: a failed single lookup\<close>

text \<open>
  Claim C9. When the container ID is missing from the cache after the one-time bootstrap
  and the single lookup of the runtime fails, \<open>getContainerEvent\<close> returns that error
  (with a nil event); the cache and the heap are those the bootstrap left, so no entry
  exists for the ID, and when the bootstrap had already run before the call they are
  exactly those from before the call. The lookup has been asked once.
\<close>

theorem lookup_failure_propagates:
  assumes miss: "cacheLookup (cacheOnceDo env s) cid = None"
    and err: "GetDockerConfig env cid = Inl err"
  shows "\<exists>s'. getContainerEvent env cid s = (Inr (None, Some err), s')
    \<and> containerCache s' = containerCache (cacheOnceDo env s)
    \<and> heap s' = heap (cacheOnceDo env s)
    \<and> cacheLookup s' cid = None
    \<and> calls s' = calls (cacheOnceDo env s) @ [GetDockerConfigCall cid]
    \<and> (containerCacheOnce s \<longrightarrow> containerCache s' = containerCache s \<and> heap s' = heap s)"
proof -
  define s1 where "s1 = cacheOnceDo env s"
  have g: "getContainerEvent env cid s =
      (Inr (None, Some err), s1\<lparr>calls := calls s1 @ [GetDockerConfigCall cid]\<rparr>)"
    using miss err by (simp add: getContainerEvent_def Let_def s1_def)
  have l: "cacheLookup (s1\<lparr>calls := calls s1 @ [GetDockerConfigCall cid]\<rparr>) cid = None"
    using miss by (simp add: cacheLookup_def s1_def)
  have d: "containerCacheOnce s \<longrightarrow> s1 = s" by (simp add: s1_def cacheOnceDo_done)
  show ?thesis using g l d unfolding s1_def [symmetric] by auto
qed

theorem lookup_failure_propagates_witness:
  "cacheLookup (cacheOnceDo demo_runtime init_state) ''c1'' = None \<and>
   GetDockerConfig demo_runtime ''c1'' = Inl ''no such container'' \<and>
   (\<exists>s'. getContainerEvent demo_runtime ''c1'' init_state =
            (Inr (None, Some ''no such container''), s')
    \<and> containerCache s' = containerCache (cacheOnceDo demo_runtime init_state)
    \<and> heap s' = heap (cacheOnceDo demo_runtime init_state)
    \<and> cacheLookup s' ''c1'' = None
    \<and> calls s' = calls (cacheOnceDo demo_runtime init_state) @ [GetDockerConfigCall ''c1'']
    \<and> (containerCacheOnce init_state \<longrightarrow>
          containerCache s' = containerCache init_state \<and> heap s' = heap init_state))"
proof -
  have 1: "cacheLookup (cacheOnceDo demo_runtime init_state) ''c1'' = None"
    by (simp add: cacheLookup_def cacheOnceDo_def newContainerCache_def demo_runtime_def
          init_state_def)
  have 2: "GetDockerConfig demo_runtime ''c1'' = Inl ''no such container''"
    by (simp add: demo_runtime_def)
  show ?thesis using 1 2 lookup_failure_propagates [OF 1 2] by simp
qed

subsection \<open>C10: the names of a Started emission\<close>

text \<open>
  Claim C10. In every state the process can reach from its start, by any sequence of
  translator calls and cache lookups under any behaviour of the runtime, a \<open>Started\<close>
  notification that makes the translator emit (that is, the second of a merged pair)
  emits a payload of phase \<open>Running\<close> whose name, image ID and image name are empty, and
  the envelope built around it has an empty container name, image ID and image name.
\<close>

theorem started_emission_has_no_names:
  assumes st: "ceState n = ContainerStarted"
    and tr: "translateContainerEvents env (ContainerEventPtr (Some n)) (run ops init_state) =
               (Inr (Some ev), s')"
  shows "\<exists>p. evEvent ev = Some p
    \<and> Type (deref s' p) = CONTAINER_EVENT_TYPE_RUNNING
    \<and> Name (deref s' p) = [] \<and> ImageId (deref s' p) = [] \<and> ImageName (deref s' p) = []
    \<and> evContainerName ev = [] \<and> evImageId ev = [] \<and> evImageName ev = []"
proof -
  define s where "s = run ops init_state"
  have inv: "startedPending s"
    unfolding s_def by (rule startedPending_run) (rule startedPending_init)
  obtain r s1 where ph: "translateStarted env n s = (r, s1)" by (cases "translateStarted env n s")
  have t: "(case r of Inl pn \<Rightarrow> (Inl pn, s1) | Inr ece \<Rightarrow> emitContainerEvent env n ece s1) =
      (Inr (Some ev), s')"
    using tr st ph unfolding s_def [symmetric] translate_unfold by simp
  then obtain ece where r: "r = Inr ece" and em: "emitContainerEvent env n ece s1 = (Inr (Some ev), s')"
    by (cases r) simp_all
  obtain p where ece: "ece = Some p"
    using em by (cases ece) (simp_all add: emitContainerEvent_def)
  have p: "p < length (heap s1)" "bareRunning (heap s1 ! p)"
    using startedPending_translateStarted [OF inv, of env n] ph r ece by simp_all
  have res: "evEvent ev = Some p \<and> evContainerName ev = Name (deref s' p) \<and>
         evImageId ev = ImageId (deref s' p) \<and> evImageName ev = ImageName (deref s' p) \<and>
         sameIdentity (heap s1 ! p) (deref s' p)"
    using em p(1) unfolding ece by (rule emit_result)
  then have "bareRunning (deref s' p)" using p(2) bareRunning_same by blast
  with res show ?thesis by (auto simp: bareRunning_def)
qed

theorem started_emission_has_no_names_witness:
  "ceState started_oci = ContainerStarted \<and>
   translateContainerEvents demo_runtime (ContainerEventPtr (Some started_oci))
       (run [(demo_runtime, Translate (ContainerEventPtr (Some started_docker)))] init_state) =
     (Inr (Some \<lparr>evContainerId = ''c1'', evContainerName = [], evImageId = [],
                  evImageName = [], evEvent = Some 0\<rparr>),
      snd (translateContainerEvents demo_runtime (ContainerEventPtr (Some started_oci))
       (run [(demo_runtime, Translate (ContainerEventPtr (Some started_docker)))] init_state))) \<and>
   (\<exists>p. Some (0::nat) = Some p
    \<and> Type (deref (snd (translateContainerEvents demo_runtime (ContainerEventPtr (Some started_oci))
         (run [(demo_runtime, Translate (ContainerEventPtr (Some started_docker)))] init_state))) p)
        = CONTAINER_EVENT_TYPE_RUNNING
    \<and> Name (deref (snd (translateContainerEvents demo_runtime (ContainerEventPtr (Some started_oci))
         (run [(demo_runtime, Translate (ContainerEventPtr (Some started_docker)))] init_state))) p)
        = []
    \<and> ImageId (deref (snd (translateContainerEvents demo_runtime (ContainerEventPtr (Some started_oci))
         (run [(demo_runtime, Translate (ContainerEventPtr (Some started_docker)))] init_state))) p)
        = []
    \<and> ImageName (deref (snd (translateContainerEvents demo_runtime (ContainerEventPtr (Some started_oci))
         (run [(demo_runtime, Translate (ContainerEventPtr (Some started_docker)))] init_state))) p)
        = [])"
proof -
  have 1: "ceState started_oci = ContainerStarted" by (simp add: started_oci_def)
  have f: "fst (translateContainerEvents demo_runtime (ContainerEventPtr (Some started_oci))
       (run [(demo_runtime, Translate (ContainerEventPtr (Some started_docker)))] init_state)) =
     Inr (Some \<lparr>evContainerId = ''c1'', evContainerName = [], evImageId = [],
                  evImageName = [], evEvent = Some 0\<rparr>)"
    by code_simp
  have 2: "translateContainerEvents demo_runtime (ContainerEventPtr (Some started_oci))
       (run [(demo_runtime, Translate (ContainerEventPtr (Some started_docker)))] init_state) =
     (Inr (Some \<lparr>evContainerId = ''c1'', evContainerName = [], evImageId = [],
                  evImageName = [], evEvent = Some 0\<rparr>),
      snd (translateContainerEvents demo_runtime (ContainerEventPtr (Some started_oci))
       (run [(demo_runtime, Translate (ContainerEventPtr (Some started_docker)))] init_state)))"
    using f by (simp add: prod_eq_iff)
  show ?thesis using 1 2 started_emission_has_no_names [OF 1 2] by simp
qed

end
